theory Spec2Isabelle
  imports Complex_Main "HOL-Library.Log_Nat"
begin

section \<open>The relational store: the tables of the schema migration\<close>

text \<open>
  The schema migration declares the tables \<open>organizations\<close>, \<open>accounts\<close>,
  \<open>journal_entries\<close> and \<open>journal_lines\<close>. A row is a record of the columns that
  carry a constraint or are read by the pages; a nullable column is an \<open>option\<close>
  (\<open>None\<close> is SQL \<open>NULL\<close>). A \<open>numeric(15,2)\<close> amount is stored exactly with two
  fractional digits: it is kept as its number of minor units (cents), an \<open>int\<close> below
  \<open>10 ^ 15\<close> in absolute value. Row-level security policies and the time stamp columns
  are outside the model.
\<close>

type_synonym uuid = string

datatype account_type = Asset | Liability | Equity | Income | Expense

record accounts_row =
  acc_id :: uuid
  acc_organization_id :: "uuid option"
  acc_code :: string
  acc_name :: string
  acc_type :: account_type
  acc_parent_account_id :: "uuid option"
  acc_is_active :: bool

record journal_entries_row =
  je_id :: uuid
  je_organization_id :: "uuid option"
  je_date :: string
  je_description :: string

record journal_lines_row =
  jl_id :: uuid
  jl_entry_id :: "uuid option"
  jl_account_id :: "uuid option"
  jl_debit :: "int option"
  jl_credit :: "int option"

record db =
  organizations :: "uuid list"
  accounts :: "accounts_row list"
  journal_entries :: "journal_entries_row list"
  journal_lines :: "journal_lines_row list"

datatype db_error =
  unique_violation
  | foreign_key_violation
  | check_violation
  | numeric_value_out_of_range

subsection \<open>SQL's three-valued logic, as the CHECK constraints use it\<close>

text \<open>
  A comparison with \<open>NULL\<close> is unknown (\<open>None\<close>); a CHECK constraint rejects a row
  only when its expression is false, so an unknown result passes.
\<close>

type_synonym sql_bool = "bool option"

fun sql_and :: "sql_bool \<Rightarrow> sql_bool \<Rightarrow> sql_bool" where
  "sql_and (Some False) b = Some False"
| "sql_and a (Some False) = Some False"
| "sql_and (Some True) (Some True) = Some True"
| "sql_and a b = None"

fun sql_not :: "sql_bool \<Rightarrow> sql_bool" where
  "sql_not (Some b) = Some (\<not> b)"
| "sql_not None = None"

fun sql_ge :: "int option \<Rightarrow> int \<Rightarrow> sql_bool" where
  "sql_ge (Some x) y = Some (x \<ge> y)"
| "sql_ge None y = None"

fun sql_gt :: "int option \<Rightarrow> int \<Rightarrow> sql_bool" where
  "sql_gt (Some x) y = Some (x > y)"
| "sql_gt None y = None"

definition check_passes :: "sql_bool \<Rightarrow> bool" where
  "check_passes b = (b \<noteq> Some False)"

subsection \<open>Table \<open>journal_lines\<close>\<close>

text \<open>
  \<^verbatim>\<open>debit numeric(15,2) DEFAULT 0, credit numeric(15,2) DEFAULT 0,
  CHECK (debit >= 0 AND credit >= 0), CHECK (NOT (debit > 0 AND credit > 0))\<close>
\<close>

definition numeric_15_2 :: "int option \<Rightarrow> bool" where
  "numeric_15_2 v = (case v of None \<Rightarrow> True | Some c \<Rightarrow> \<bar>c\<bar> < 10 ^ 15)"

definition journal_lines_check1 :: "journal_lines_row \<Rightarrow> bool" where
  "journal_lines_check1 l =
     check_passes (sql_and (sql_ge (jl_debit l) 0) (sql_ge (jl_credit l) 0))"

definition journal_lines_check2 :: "journal_lines_row \<Rightarrow> bool" where
  "journal_lines_check2 l =
     check_passes (sql_not (sql_and (sql_gt (jl_debit l) 0) (sql_gt (jl_credit l) 0)))"

definition references :: "uuid option \<Rightarrow> uuid list \<Rightarrow> bool" where
  "references fk keys = (case fk of None \<Rightarrow> True | Some k \<Rightarrow> k \<in> set keys)"

definition insert_journal_line :: "journal_lines_row \<Rightarrow> db \<Rightarrow> db_error + db" where
  "insert_journal_line l d =
     (if \<not> (numeric_15_2 (jl_debit l) \<and> numeric_15_2 (jl_credit l))
        then Inl numeric_value_out_of_range
      else if \<not> (journal_lines_check1 l \<and> journal_lines_check2 l)
        then Inl check_violation
      else if jl_id l \<in> set (map jl_id (journal_lines d))
        then Inl unique_violation
      else if \<not> (references (jl_entry_id l) (map je_id (journal_entries d))
                \<and> references (jl_account_id l) (map acc_id (accounts d)))
        then Inl foreign_key_violation
      else Inr (d\<lparr>journal_lines := journal_lines d @ [l]\<rparr>))"

subsection \<open>Table \<open>journal_entries\<close>\<close>

definition insert_journal_entry :: "journal_entries_row \<Rightarrow> db \<Rightarrow> db_error + db" where
  "insert_journal_entry e d =
     (if je_id e \<in> set (map je_id (journal_entries d))
        then Inl unique_violation
      else if \<not> references (je_organization_id e) (organizations d)
        then Inl foreign_key_violation
      else Inr (d\<lparr>journal_entries := journal_entries d @ [e]\<rparr>))"

subsection \<open>Table \<open>accounts\<close>\<close>

text \<open>
  \<^verbatim>\<open>id uuid PRIMARY KEY, organization_id uuid REFERENCES organizations(id),
  parent_account_id uuid REFERENCES accounts(id) ON DELETE SET NULL,
  UNIQUE(organization_id, code)\<close>.
  A unique constraint treats two \<open>NULL\<close>s as distinct, so only rows with an
  organization can collide on \<open>(organization_id, code)\<close>. An insert of several rows is
  one statement: a row is checked against the table and the rows before it, the
  foreign keys are checked when the statement ends, and a failure leaves the table as
  it was.
\<close>

definition accounts_unique_clash :: "accounts_row \<Rightarrow> accounts_row list \<Rightarrow> bool" where
  "accounts_unique_clash r rows =
     (acc_id r \<in> set (map acc_id rows)
      \<or> (acc_organization_id r \<noteq> None
          \<and> (acc_organization_id r, acc_code r)
               \<in> set (map (\<lambda>x. (acc_organization_id x, acc_code x)) rows)))"

fun accounts_add_rows :: "accounts_row list \<Rightarrow> accounts_row list \<Rightarrow> accounts_row list option" where
  "accounts_add_rows [] rows = Some rows"
| "accounts_add_rows (r # rs) rows =
     (if accounts_unique_clash r rows then None else accounts_add_rows rs (rows @ [r]))"

definition accounts_fk_ok :: "uuid list \<Rightarrow> accounts_row list \<Rightarrow> accounts_row \<Rightarrow> bool" where
  "accounts_fk_ok orgs rows r =
     (references (acc_organization_id r) orgs
      \<and> references (acc_parent_account_id r) (map acc_id rows))"

definition insert_accounts :: "accounts_row list \<Rightarrow> db \<Rightarrow> db_error + db" where
  "insert_accounts rs d =
     (case accounts_add_rows rs (accounts d) of
        None \<Rightarrow> Inl unique_violation
      | Some rows \<Rightarrow>
          if list_all (accounts_fk_ok (organizations d) rows) rs
          then Inr (d\<lparr>accounts := rows\<rparr>)
          else Inl foreign_key_violation)"

text \<open>
  \<^verbatim>\<open>delete from accounts where id = accountId\<close>. Two foreign keys reference
  \<open>accounts(id)\<close>: \<open>journal_lines.account_id\<close> with \<open>ON DELETE CASCADE\<close> (the
  referencing lines are deleted with the account) and \<open>accounts.parent_account_id\<close> with
  \<open>ON DELETE SET NULL\<close> (the children of the account become parentless). No
  constraint of the schema can refuse the statement.
\<close>

definition set_null_parent :: "uuid \<Rightarrow> accounts_row \<Rightarrow> accounts_row" where
  "set_null_parent k r =
     (if acc_parent_account_id r = Some k then r\<lparr>acc_parent_account_id := None\<rparr> else r)"

definition delete_account :: "uuid \<Rightarrow> db \<Rightarrow> db_error + db" where
  "delete_account k d =
     Inr (d\<lparr>accounts := map (set_null_parent k) (filter (\<lambda>r. acc_id r \<noteq> k) (accounts d)),
           journal_lines := filter (\<lambda>l. jl_account_id l \<noteq> Some k) (journal_lines d)\<rparr>)"

text \<open>Journal writes that the store has accepted, from any state without lines.\<close>

inductive persisted :: "db \<Rightarrow> bool" where
  persisted_init: "journal_lines d = [] \<Longrightarrow> persisted d"
| persisted_line: "persisted d \<Longrightarrow> insert_journal_line l d = Inr d' \<Longrightarrow> persisted d'"
| persisted_entry: "persisted d \<Longrightarrow> insert_journal_entry e d = Inr d' \<Longrightarrow> persisted d'"
| persisted_accounts: "persisted d \<Longrightarrow> insert_accounts rs d = Inr d' \<Longrightarrow> persisted d'"
| persisted_delete: "persisted d \<Longrightarrow> delete_account k d = Inr d' \<Longrightarrow> persisted d'"

text \<open>The debit and credit totals of an entry's lines (\<open>SUM\<close> skips \<open>NULL\<close>).\<close>

definition amount :: "int option \<Rightarrow> int" where
  "amount v = (case v of None \<Rightarrow> 0 | Some c \<Rightarrow> c)"

definition lines_of_entry :: "db \<Rightarrow> uuid \<Rightarrow> journal_lines_row list" where
  "lines_of_entry d k = filter (\<lambda>l. jl_entry_id l = Some k) (journal_lines d)"

definition sum_debit :: "journal_lines_row list \<Rightarrow> int" where
  "sum_debit ls = sum_list (map (\<lambda>l. amount (jl_debit l)) ls)"

definition sum_credit :: "journal_lines_row list \<Rightarrow> int" where
  "sum_credit ls = sum_list (map (\<lambda>l. amount (jl_credit l)) ls)"

section \<open>The chart of accounts page: writes\<close>

datatype toast = toast_success string | toast_error string

text \<open>
  \<open>createDefaultAccounts\<close> of the chart of accounts page. The rows carry no \<open>id\<close>:
  the column default \<open>gen_random_uuid()\<close> supplies one per row, here the function
  \<open>gen_random_uuid\<close> of the row's position. The handler returns when there is no current
  organization, and otherwise inserts the sixteen rows in one statement without
  reading the table first.
\<close>

definition defaultAccounts :: "(string \<times> string \<times> account_type) list" where
  "defaultAccounts =
     [(''1000'', ''Cash and Cash Equivalents'', Asset),
      (''1100'', ''Accounts Receivable'', Asset),
      (''1200'', ''Inventory'', Asset),
      (''1500'', ''Equipment'', Asset),
      (''2000'', ''Accounts Payable'', Liability),
      (''2100'', ''Accrued Expenses'', Liability),
      (''2500'', ''Long-term Debt'', Liability),
      (''3000'', ''Owner's Equity'', Equity),
      (''3100'', ''Retained Earnings'', Equity),
      (''4000'', ''Sales Revenue'', Income),
      (''4100'', ''Service Revenue'', Income),
      (''5000'', ''Cost of Goods Sold'', Expense),
      (''6000'', ''Operating Expenses'', Expense),
      (''6100'', ''Rent Expense'', Expense),
      (''6200'', ''Utilities Expense'', Expense),
      (''6300'', ''Marketing Expense'', Expense)]"

definition default_row :: "uuid \<Rightarrow> uuid \<Rightarrow> string \<times> string \<times> account_type \<Rightarrow> accounts_row" where
  "default_row org k a =
     \<lparr>acc_id = k, acc_organization_id = Some org, acc_code = fst a, acc_name = fst (snd a),
      acc_type = snd (snd a), acc_parent_account_id = None, acc_is_active = True\<rparr>"

definition default_rows :: "uuid \<Rightarrow> (nat \<Rightarrow> uuid) \<Rightarrow> accounts_row list" where
  "default_rows org gen_random_uuid =
     map (\<lambda>(i, a). default_row org (gen_random_uuid i) a) (enumerate 0 defaultAccounts)"

definition createDefaultAccounts :: "uuid option \<Rightarrow> (nat \<Rightarrow> uuid) \<Rightarrow> db \<Rightarrow> toast option \<times> db" where
  "createDefaultAccounts currentOrganization gen_random_uuid d =
     (case currentOrganization of
        None \<Rightarrow> (None, d)
      | Some org \<Rightarrow>
          (case insert_accounts (default_rows org gen_random_uuid) d of
             Inl error \<Rightarrow> (Some (toast_error ''Failed to create default accounts''), d)
           | Inr d' \<Rightarrow> (Some (toast_success ''Default chart of accounts created!''), d')))"

definition org_accounts :: "uuid \<Rightarrow> db \<Rightarrow> accounts_row list" where
  "org_accounts org d = filter (\<lambda>r. acc_organization_id r = Some org) (accounts d)"

text \<open>
  \<open>handleDeleteAccount\<close>: after the confirmation dialog (\<open>confirmed\<close> is the user's
  answer) the handler deletes the row and reports what the store answered.
\<close>

definition handleDeleteAccount :: "bool \<Rightarrow> uuid \<Rightarrow> db \<Rightarrow> toast option \<times> db" where
  "handleDeleteAccount confirmed accountId d =
     (if \<not> confirmed then (None, d)
      else (case delete_account accountId d of
              Inl error \<Rightarrow> (Some (toast_error ''Failed to delete account''), d)
            | Inr d' \<Rightarrow> (Some (toast_success ''Account deleted successfully!''), d')))"

section \<open>The pages: what the queries return\<close>

text \<open>
  The pages read \<open>journal_entries\<close> with their \<open>journal_lines\<close> and each line's
  account embedded (\<open>line.accounts\<close>, absent when the account does not resolve). The
  row types declare \<open>debit\<close> and \<open>credit\<close> as \<open>number\<close>.
  \<open>entry.journal_lines?.forEach\<close> skips an entry whose \<open>journal_lines\<close> is absent,
  which is \<open>None\<close> here.
\<close>

subsection \<open>Numbers\<close>

text \<open>
  A JavaScript number is an IEEE 754 binary64 value: \<open>Fin x\<close> is the finite double of
  rational value \<open>x\<close>, and \<open>PInf\<close>, \<open>NInf\<close> and \<open>NaN\<close> are the two infinities and
  not-a-number. The two zeros are the one value \<open>Fin 0\<close>: neither is greater than
  zero, both are falsy, and sums, differences and products give the same numbers from
  either; they differ as divisors only, and the pages divide by nothing but a total
  that is greater than zero. The sign of a zero result is not recorded.

  Every arithmetic operation rounds the exact result to the nearest double, ties to
  the even significand (\<open>fl\<close>). For \<open>a > 0\<close>, \<open>floor_log2 a\<close> is the exponent of the
  binade of \<open>a\<close>; the doubles of that binade are the multiples of
  \<open>2 powi ulp_exponent a\<close>, with 53 significant bits for a normal number and fewer
  below \<open>2 powi - 1022\<close>; a rounded result of \<open>2 ^ 1024\<close> or more overflows to infinity.
  An amount of the database arrives as the double nearest to its decimal value, which
  is \<open>fl\<close> of that value.
\<close>

datatype js_number = Fin rat | PInf | NInf | NaN

definition floor_log2 :: "rat \<Rightarrow> int" where
  "floor_log2 a = (if 1 \<le> a then bitlen \<lfloor>a\<rfloor> - 1 else - bitlen (\<lceil>1 / a\<rceil> - 1))"

definition round_half_even :: "rat \<Rightarrow> int" where
  "round_half_even q =
     (if q - of_int \<lfloor>q\<rfloor> < 1 / 2 then \<lfloor>q\<rfloor>
      else if 1 / 2 < q - of_int \<lfloor>q\<rfloor> then \<lfloor>q\<rfloor> + 1
      else if even \<lfloor>q\<rfloor> then \<lfloor>q\<rfloor> else \<lfloor>q\<rfloor> + 1)"

definition ulp_exponent :: "rat \<Rightarrow> int" where
  "ulp_exponent a = max (floor_log2 a) (- 1022) - 52"

definition fl_pos :: "rat \<Rightarrow> js_number" where
  "fl_pos a =
     (if (2::rat) ^ 1024 \<le> of_int (round_half_even (a / 2 powi ulp_exponent a)) * 2 powi ulp_exponent a
      then PInf
      else Fin (of_int (round_half_even (a / 2 powi ulp_exponent a)) * 2 powi ulp_exponent a))"

fun js_neg :: "js_number \<Rightarrow> js_number" where
  "js_neg (Fin a) = Fin (- a)"
| "js_neg PInf = NInf"
| "js_neg NInf = PInf"
| "js_neg NaN = NaN"

definition fl :: "rat \<Rightarrow> js_number" where
  "fl x = (if x = 0 then Fin 0 else if 0 < x then fl_pos x else js_neg (fl_pos (- x)))"

text \<open>\<open>x + y\<close>, \<open>x - y\<close>, \<open>x * y\<close>, \<open>x / y\<close> and \<open>x > 0\<close> on numbers.\<close>

fun js_add :: "js_number \<Rightarrow> js_number \<Rightarrow> js_number" where
  "js_add (Fin a) (Fin b) = fl (a + b)"
| "js_add (Fin a) PInf = PInf"
| "js_add (Fin a) NInf = NInf"
| "js_add PInf (Fin b) = PInf"
| "js_add PInf PInf = PInf"
| "js_add NInf (Fin b) = NInf"
| "js_add NInf NInf = NInf"
| "js_add PInf NInf = NaN"
| "js_add NInf PInf = NaN"
| "js_add NaN y = NaN"
| "js_add x NaN = NaN"

definition js_sub :: "js_number \<Rightarrow> js_number \<Rightarrow> js_number" where
  "js_sub x y = js_add x (js_neg y)"

fun js_sign :: "js_number \<Rightarrow> int" where
  "js_sign (Fin a) = (if a = 0 then 0 else if 0 < a then 1 else - 1)"
| "js_sign PInf = 1"
| "js_sign NInf = - 1"
| "js_sign NaN = 0"

definition js_signed_infinity :: "int \<Rightarrow> js_number" where
  "js_signed_infinity s = (if s = 0 then NaN else if 0 < s then PInf else NInf)"

fun js_mul :: "js_number \<Rightarrow> js_number \<Rightarrow> js_number" where
  "js_mul (Fin a) (Fin b) = fl (a * b)"
| "js_mul NaN y = NaN"
| "js_mul x NaN = NaN"
| "js_mul x y = js_signed_infinity (js_sign x * js_sign y)"

fun js_div :: "js_number \<Rightarrow> js_number \<Rightarrow> js_number" where
  "js_div (Fin a) (Fin b) = (if b = 0 then js_signed_infinity (js_sign (Fin a)) else fl (a / b))"
| "js_div NaN y = NaN"
| "js_div x NaN = NaN"
| "js_div (Fin a) y = Fin 0"
| "js_div x (Fin b) = js_signed_infinity (js_sign x * (if b < 0 then - 1 else 1))"
| "js_div x y = NaN"

fun js_gt0 :: "js_number \<Rightarrow> bool" where
  "js_gt0 (Fin a) = (0 < a)"
| "js_gt0 PInf = True"
| "js_gt0 NInf = False"
| "js_gt0 NaN = False"

text \<open>\<open>x || 0\<close> on a number: 0 and \<open>NaN\<close> are falsy.\<close>

definition num_or0 :: "js_number \<Rightarrow> js_number" where
  "num_or0 x = (if x = Fin 0 \<or> x = NaN then Fin 0 else x)"

record line =
  line_id :: string
  line_debit :: js_number
  line_credit :: js_number
  line_accounts :: "accounts_row option"

record entry =
  entry_id :: string
  entry_date :: string
  entry_description :: string
  entry_journal_lines :: "line list option"

subsection \<open>Plain objects used as dictionaries\<close>

text \<open>
  \<open>const o: { [key: string]: number } = {}\<close> is a plain object: a list of own
  properties in creation order, on top of the properties that every object inherits
  from \<open>Object.prototype\<close> (\<open>Object_prototype_keys\<close>), which are functions, and the
  prototype object itself for \<open>__proto__\<close>. So the values met at run time are not
  only numbers:
  \<^item> \<open>JNum x\<close>, a number;
  \<^item> \<open>JObj\<close>, a function or object inherited from \<open>Object.prototype\<close>;
  \<^item> \<open>JStr\<close>, a string that contains the source text of such a function or object
    (so it is not empty and it is not a numeral); its characters are not modelled;
  \<^item> \<open>JUndefined\<close>.
\<close>

datatype js_value = JNum js_number | JObj | JStr | JUndefined

type_synonym js_object = "(string \<times> js_value) list"

definition Object_prototype_keys :: "string list" where
  "Object_prototype_keys =
     [''constructor'', ''__defineGetter__'', ''__defineSetter__'', ''hasOwnProperty'',
      ''__lookupGetter__'', ''__lookupSetter__'', ''isPrototypeOf'',
      ''propertyIsEnumerable'', ''toString'', ''valueOf'', ''__proto__'',
      ''toLocaleString'']"

text \<open>\<open>o[k]\<close>: the own property, else the inherited one, else \<open>undefined\<close>.\<close>

definition obj_get :: "js_object \<Rightarrow> string \<Rightarrow> js_value" where
  "obj_get obj k =
     (case map_of obj k of
        Some v \<Rightarrow> v
      | None \<Rightarrow> if k \<in> set Object_prototype_keys then JObj else JUndefined)"

text \<open>\<open>v || 0\<close>: \<open>undefined\<close>, 0 and \<open>NaN\<close> are falsy; \<open>JObj\<close> and \<open>JStr\<close> are truthy.\<close>

fun js_truthy :: "js_value \<Rightarrow> bool" where
  "js_truthy (JNum x) = (x \<noteq> Fin 0 \<and> x \<noteq> NaN)"
| "js_truthy JObj = True"
| "js_truthy JStr = True"
| "js_truthy JUndefined = False"

definition js_or0 :: "js_value \<Rightarrow> js_value" where
  "js_or0 v = (if js_truthy v then v else JNum (Fin 0))"

text \<open>
  \<open>v + w\<close>: the sum of two numbers; a concatenation of strings as soon as one operand
  is a function, an object or a string; \<open>NaN\<close> for \<open>undefined\<close> and a number.
\<close>

fun js_plus :: "js_value \<Rightarrow> js_value \<Rightarrow> js_value" where
  "js_plus (JNum x) (JNum y) = JNum (js_add x y)"
| "js_plus JObj w = JStr"
| "js_plus JStr w = JStr"
| "js_plus v JObj = JStr"
| "js_plus v JStr = JStr"
| "js_plus v w = JNum NaN"

text \<open>\<open>v - w\<close> converts both operands to numbers; only a number converts to itself here.\<close>

fun ToNumber :: "js_value \<Rightarrow> js_number" where
  "ToNumber (JNum x) = x"
| "ToNumber v = NaN"

definition js_minus :: "js_value \<Rightarrow> js_value \<Rightarrow> js_value" where
  "js_minus v w = JNum (js_sub (ToNumber v) (ToNumber w))"

text \<open>
  Creating or overwriting an own property, for a key other than \<open>__proto__\<close>: the
  property keeps its place when it exists and is appended otherwise.
\<close>

fun set_own :: "string \<Rightarrow> js_value \<Rightarrow> js_object \<Rightarrow> js_object" where
  "set_own k v [] = [(k, v)]"
| "set_own k v (p # ps) = (if fst p = k then (k, v) # ps else p # set_own k v ps)"

text \<open>
  \<open>o[k] = (o[k] || 0) + d\<close> for a number \<open>d\<close>. For the key \<open>__proto__\<close> the assignment
  calls the setter inherited from \<open>Object.prototype\<close> with the string
  \<open>'[object Object]' + d\<close>, and the setter ignores a value that is neither an object
  nor \<open>null\<close>: the object is unchanged.
\<close>

definition obj_add :: "string \<Rightarrow> js_number \<Rightarrow> js_object \<Rightarrow> js_object" where
  "obj_add k d obj =
     (if k = ''__proto__'' then obj
      else set_own k (js_plus (js_or0 (obj_get obj k)) (JNum d)) obj)"

text \<open>
  \<open>Object.entries\<close> lists the own properties: the array-index keys first, in
  ascending numeric order, and the other keys after them in creation order.
\<close>

definition is_digit :: "char \<Rightarrow> bool" where
  "is_digit c = (48 \<le> (of_char c :: nat) \<and> (of_char c :: nat) \<le> 57)"

definition numeric_value :: "string \<Rightarrow> nat" where
  "numeric_value s = foldl (\<lambda>n c. 10 * n + (of_char c - 48)) 0 s"

definition is_array_index :: "string \<Rightarrow> bool" where
  "is_array_index s =
     (s \<noteq> [] \<and> list_all is_digit s \<and> (s = ''0'' \<or> hd s \<noteq> CHR ''0'')
      \<and> numeric_value s < 2 ^ 32 - 1)"

definition Object_entries :: "js_object \<Rightarrow> (string \<times> js_value) list" where
  "Object_entries obj =
     sort_key (\<lambda>p. numeric_value (fst p)) (filter (\<lambda>p. is_array_index (fst p)) obj)
     @ filter (\<lambda>p. \<not> is_array_index (fst p)) obj"

subsection \<open>Dashboard: \<open>loadDashboardData\<close>\<close>

record report_vars =
  totalRevenue :: js_number
  totalExpenses :: js_number
  monthlyRevenue :: js_object
  monthlyExpenses :: js_object

record recent_transaction =
  rt_id :: string
  rt_description :: string
  rt_amount :: js_number
  rt_type :: string
  rt_date :: string

record dashboard_vars = report_vars +
  expensesByCategory :: js_object
  recentTransactions :: "recent_transaction list"

record monthly_flow =
  mf_month :: string
  mf_inflow :: js_value
  mf_outflow :: js_value

record breakdown_item =
  bi_name :: string
  bi_value :: js_value
  bi_color :: string

record DashboardData =
  dd_totalRevenue :: js_number
  dd_totalExpenses :: js_number
  dd_netProfit :: js_number
  dd_outstandingInvoices :: js_number
  dd_recentTransactions :: "recent_transaction list"
  dd_monthlyData :: "monthly_flow list"
  dd_expenseBreakdown :: "breakdown_item list"

definition months :: "string list" where
  "months = [''Jan'', ''Feb'', ''Mar'', ''Apr'', ''May'', ''Jun'',
             ''Jul'', ''Aug'', ''Sep'', ''Oct'', ''Nov'', ''Dec'']"

definition colors :: "string list" where
  "colors = [''#3B82F6'', ''#10B981'', ''#F59E0B'', ''#EF4444'', ''#8B5CF6'']"

text \<open>The body of the inner \<open>forEach\<close>, for one line of an entry of month \<open>month\<close>.\<close>

definition dashboard_line :: "string \<Rightarrow> line \<Rightarrow> dashboard_vars \<Rightarrow> dashboard_vars" where
  "dashboard_line month l v =
     (case line_accounts l of
        None \<Rightarrow> v
      | Some account \<Rightarrow>
          (let v1 = (if acc_type account = Income \<and> js_gt0 (line_credit l)
                     then v\<lparr>totalRevenue := js_add (totalRevenue v) (line_credit l),
                            monthlyRevenue := obj_add month (line_credit l) (monthlyRevenue v)\<rparr>
                     else v)
           in (if acc_type account = Expense \<and> js_gt0 (line_debit l)
               then v1\<lparr>totalExpenses := js_add (totalExpenses v1) (line_debit l),
                       monthlyExpenses := obj_add month (line_debit l) (monthlyExpenses v1),
                       expensesByCategory :=
                         obj_add (acc_name account) (line_debit l) (expensesByCategory v1)\<rparr>
               else v1)))"

definition recent_amount :: "entry \<Rightarrow> js_number" where
  "recent_amount e =
     (case entry_journal_lines e of
        None \<Rightarrow> Fin 0
      | Some ls \<Rightarrow>
          num_or0
            (fold (\<lambda>l sum.
                    (case line_accounts l of
                       None \<Rightarrow> sum
                     | Some a \<Rightarrow>
                         if acc_type a = Income then js_add sum (line_credit l)
                         else if acc_type a = Expense then js_sub sum (line_debit l)
                         else sum)) ls (Fin 0)))"

text \<open>
  The body of the outer \<open>forEach\<close>. \<open>month_of\<close> stands for
  \<open>new Date(entry.date).toLocaleString('default', { month: 'short' })\<close>, which depends
  on the locale and the time zone of the browser.
\<close>

definition dashboard_entry :: "(string \<Rightarrow> string) \<Rightarrow> entry \<Rightarrow> dashboard_vars \<Rightarrow> dashboard_vars" where
  "dashboard_entry month_of e v =
     (let v1 = (case entry_journal_lines e of
                  None \<Rightarrow> v
                | Some ls \<Rightarrow> fold (dashboard_line (month_of (entry_date e))) ls v)
      in if length (recentTransactions v1) < 5
         then v1\<lparr>recentTransactions := recentTransactions v1 @
                   [\<lparr>rt_id = entry_id e, rt_description = entry_description e,
                     rt_amount = recent_amount e,
                     rt_type = (if js_gt0 (recent_amount e) then ''income'' else ''expense''),
                     rt_date = entry_date e\<rparr>]\<rparr>
         else v1)"

definition dashboard_init :: dashboard_vars where
  "dashboard_init =
     \<lparr>totalRevenue = Fin 0, totalExpenses = Fin 0, monthlyRevenue = [],
      monthlyExpenses = [], expensesByCategory = [], recentTransactions = []\<rparr>"

definition dashboard_scan :: "(string \<Rightarrow> string) \<Rightarrow> entry list \<Rightarrow> dashboard_vars" where
  "dashboard_scan month_of journalEntries =
     fold (dashboard_entry month_of) journalEntries dashboard_init"

definition expense_breakdown :: "js_object \<Rightarrow> breakdown_item list" where
  "expense_breakdown obj =
     take 5 (map (\<lambda>(index, p). \<lparr>bi_name = fst p, bi_value = snd p,
                                  bi_color = colors ! (index mod 5)\<rparr>)
               (enumerate 0 (Object_entries obj)))"

definition dashboard_empty :: DashboardData where
  "dashboard_empty =
     \<lparr>dd_totalRevenue = Fin 0, dd_totalExpenses = Fin 0, dd_netProfit = Fin 0,
      dd_outstandingInvoices = Fin 0, dd_recentTransactions = [], dd_monthlyData = [],
      dd_expenseBreakdown = []\<rparr>"

text \<open>
  \<open>loadDashboardData\<close>, from the answer of the query (the entries of the current year,
  newest first): an error gives the empty dashboard.
\<close>

definition loadDashboardData :: "(string \<Rightarrow> string) \<Rightarrow> 'e + entry list \<Rightarrow> DashboardData" where
  "loadDashboardData month_of answer =
     (case answer of
        Inl entriesError \<Rightarrow> dashboard_empty
      | Inr journalEntries \<Rightarrow>
          (let v = dashboard_scan month_of journalEntries
           in \<lparr>dd_totalRevenue = totalRevenue v,
               dd_totalExpenses = totalExpenses v,
               dd_netProfit = js_sub (totalRevenue v) (totalExpenses v),
               dd_outstandingInvoices = Fin 0,
               dd_recentTransactions = recentTransactions v,
               dd_monthlyData =
                 map (\<lambda>month. \<lparr>mf_month = month,
                                  mf_inflow = js_or0 (obj_get (monthlyRevenue v) month),
                                  mf_outflow = js_or0 (obj_get (monthlyExpenses v) month)\<rparr>)
                   months,
               dd_expenseBreakdown = expense_breakdown (expensesByCategory v)\<rparr>))"

subsection \<open>Reports: \<open>loadReportData\<close>\<close>

record monthly_report =
  mr_month :: string
  mr_revenue :: js_value
  mr_expenses :: js_value
  mr_profit :: js_value

record quarter_item =
  qi_quarter :: string
  qi_value :: js_value

record ReportData =
  rd_totalRevenue :: js_number
  rd_totalExpenses :: js_number
  rd_netProfit :: js_number
  rd_profitMargin :: js_number
  rd_monthlyData :: "monthly_report list"
  rd_quarterlyData :: "quarter_item list"

definition report_line :: "string \<Rightarrow> line \<Rightarrow> report_vars \<Rightarrow> report_vars" where
  "report_line month l v =
     (case line_accounts l of
        None \<Rightarrow> v
      | Some account \<Rightarrow>
          (let v1 = (if acc_type account = Income \<and> js_gt0 (line_credit l)
                     then v\<lparr>totalRevenue := js_add (totalRevenue v) (line_credit l),
                            monthlyRevenue := obj_add month (line_credit l) (monthlyRevenue v)\<rparr>
                     else v)
           in (if acc_type account = Expense \<and> js_gt0 (line_debit l)
               then v1\<lparr>totalExpenses := js_add (totalExpenses v1) (line_debit l),
                       monthlyExpenses := obj_add month (line_debit l) (monthlyExpenses v1)\<rparr>
               else v1)))"

definition report_entry :: "(string \<Rightarrow> string) \<Rightarrow> entry \<Rightarrow> report_vars \<Rightarrow> report_vars" where
  "report_entry month_of e v =
     (case entry_journal_lines e of
        None \<Rightarrow> v
      | Some ls \<Rightarrow> fold (report_line (month_of (entry_date e))) ls v)"

definition report_init :: report_vars where
  "report_init =
     \<lparr>totalRevenue = Fin 0, totalExpenses = Fin 0, monthlyRevenue = [],
      monthlyExpenses = []\<rparr>"

definition report_scan :: "(string \<Rightarrow> string) \<Rightarrow> entry list \<Rightarrow> report_vars" where
  "report_scan month_of journalEntries = fold (report_entry month_of) journalEntries report_init"

definition report_empty :: ReportData where
  "report_empty =
     \<lparr>rd_totalRevenue = Fin 0, rd_totalExpenses = Fin 0, rd_netProfit = Fin 0,
      rd_profitMargin = Fin 0, rd_monthlyData = [], rd_quarterlyData = []\<rparr>"

definition slice :: "nat \<Rightarrow> nat \<Rightarrow> 'a list \<Rightarrow> 'a list" where
  "slice a b xs = take (b - a) (drop a xs)"

definition quarter_revenue :: "monthly_report list \<Rightarrow> js_value" where
  "quarter_revenue ms = fold (\<lambda>m sum. js_plus sum (mr_revenue m)) ms (JNum (Fin 0))"

definition loadReportData :: "(string \<Rightarrow> string) \<Rightarrow> 'e + entry list \<Rightarrow> ReportData" where
  "loadReportData month_of answer =
     (case answer of
        Inl error \<Rightarrow> report_empty
      | Inr journalEntries \<Rightarrow>
          (let v = report_scan month_of journalEntries;
               netProfit = js_sub (totalRevenue v) (totalExpenses v);
               profitMargin = (if js_gt0 (totalRevenue v)
                               then js_mul (js_div netProfit (totalRevenue v)) (Fin 100)
                               else Fin 0);
               monthlyData =
                 map (\<lambda>month. \<lparr>mr_month = month,
                                  mr_revenue = js_or0 (obj_get (monthlyRevenue v) month),
                                  mr_expenses = js_or0 (obj_get (monthlyExpenses v) month),
                                  mr_profit = js_minus (js_or0 (obj_get (monthlyRevenue v) month))
                                                (js_or0 (obj_get (monthlyExpenses v) month))\<rparr>)
                   months
           in \<lparr>rd_totalRevenue = totalRevenue v,
               rd_totalExpenses = totalExpenses v,
               rd_netProfit = netProfit,
               rd_profitMargin = profitMargin,
               rd_monthlyData = monthlyData,
               rd_quarterlyData =
                 [\<lparr>qi_quarter = ''Q1'', qi_value = quarter_revenue (slice 0 3 monthlyData)\<rparr>,
                  \<lparr>qi_quarter = ''Q2'', qi_value = quarter_revenue (slice 3 6 monthlyData)\<rparr>,
                  \<lparr>qi_quarter = ''Q3'', qi_value = quarter_revenue (slice 6 9 monthlyData)\<rparr>,
                  \<lparr>qi_quarter = ''Q4'', qi_value = quarter_revenue (slice 9 12 monthlyData)\<rparr>]\<rparr>))"

subsection \<open>Expenses: the category totals of \<open>loadExpenses\<close>\<close>

definition is_expense_debit :: "line \<Rightarrow> bool" where
  "is_expense_debit l =
     ((case line_accounts l of None \<Rightarrow> False | Some a \<Rightarrow> acc_type a = Expense)
      \<and> js_gt0 (line_debit l))"

definition account_name :: "line \<Rightarrow> string" where
  "account_name l = (case line_accounts l of None \<Rightarrow> [] | Some a \<Rightarrow> acc_name a)"

definition expenses_line :: "line \<Rightarrow> js_object \<Rightarrow> js_object" where
  "expenses_line l categoryTotals =
     (if is_expense_debit l
      then obj_add (account_name l) (line_debit l) categoryTotals
      else categoryTotals)"

definition expenses_entry :: "entry \<Rightarrow> js_object \<Rightarrow> js_object" where
  "expenses_entry e categoryTotals =
     (case entry_journal_lines e of
        None \<Rightarrow> categoryTotals
      | Some ls \<Rightarrow> fold expenses_line ls categoryTotals)"

definition loadExpenses_categories :: "entry list \<Rightarrow> breakdown_item list" where
  "loadExpenses_categories journalEntries =
     expense_breakdown (fold expenses_entry journalEntries [])"

subsection \<open>Banking: \<open>loadBankingData\<close>\<close>

record BankAccount =
  ba_id :: string
  ba_name :: string
  ba_type :: string
  ba_balance :: js_number

record Transaction =
  tx_id :: string
  tx_date :: string
  tx_description :: string
  tx_amount :: js_number
  tx_status :: string
  tx_category :: string

text \<open>\<open>toLowerCase\<close> and \<open>includes\<close> (here \<open>str_includes\<close>) on strings of ASCII characters.\<close>

definition lower_char :: "char \<Rightarrow> char" where
  "lower_char c =
     (if 65 \<le> (of_char c :: nat) \<and> (of_char c :: nat) \<le> 90
      then char_of ((of_char c :: nat) + 32) else c)"

definition toLowerCase :: "string \<Rightarrow> string" where
  "toLowerCase s = map lower_char s"

fun str_includes :: "string \<Rightarrow> string \<Rightarrow> bool" where
  "str_includes [] sub = (sub = [])"
| "str_includes (c # cs) sub = (take (length sub) (c # cs) = sub \<or> str_includes cs sub)"

definition is_bank_name :: "string \<Rightarrow> bool" where
  "is_bank_name n =
     (str_includes (toLowerCase n) ''cash'' \<or> str_includes (toLowerCase n) ''bank''
      \<or> str_includes (toLowerCase n) ''checking'' \<or> str_includes (toLowerCase n) ''savings'')"

definition bankAccountsData :: "accounts_row list \<Rightarrow> BankAccount list" where
  "bankAccountsData accts =
     map (\<lambda>account. \<lparr>ba_id = acc_id account, ba_name = acc_name account,
                       ba_type = ''checking'', ba_balance = Fin 0\<rparr>)
       (filter (\<lambda>account. is_bank_name (acc_name account)) accts)"

definition banking_line :: "entry \<Rightarrow> line \<Rightarrow> Transaction list \<Rightarrow> Transaction list" where
  "banking_line e l transactionsData =
     (case line_accounts l of
        None \<Rightarrow> transactionsData
      | Some account \<Rightarrow>
          if js_gt0 (line_debit l) \<or> js_gt0 (line_credit l)
          then transactionsData @
                 [\<lparr>tx_id = entry_id e @ ''-'' @ line_id l,
                   tx_date = entry_date e,
                   tx_description = entry_description e,
                   tx_amount = (if js_gt0 (line_debit l) then js_neg (line_debit l)
                                else line_credit l),
                   tx_status = ''reconciled'',
                   tx_category = acc_name account\<rparr>]
          else transactionsData)"

definition banking_entry :: "entry \<Rightarrow> Transaction list \<Rightarrow> Transaction list" where
  "banking_entry e transactionsData =
     (case entry_journal_lines e of
        None \<Rightarrow> transactionsData
      | Some ls \<Rightarrow> fold (banking_line e) ls transactionsData)"

definition transactionsData :: "entry list \<Rightarrow> Transaction list" where
  "transactionsData journalEntries = fold banking_entry journalEntries []"

text \<open>
  \<open>loadBankingData\<close>, from the answers of its two queries: the active asset accounts
  of the organization, and the 50 newest entries. It sets the bank accounts and the
  transactions of the page: both empty when the first query fails, the transactions
  empty when the second fails.
\<close>

definition loadBankingData ::
  "'e + accounts_row list \<Rightarrow> 'e + entry list \<Rightarrow> BankAccount list \<times> Transaction list" where
  "loadBankingData accountsAnswer entriesAnswer =
     (case accountsAnswer of
        Inl accountsError \<Rightarrow> ([], [])
      | Inr accts \<Rightarrow>
          (case entriesAnswer of
             Inl entriesError \<Rightarrow> (bankAccountsData accts, [])
           | Inr journalEntries \<Rightarrow> (bankAccountsData accts, transactionsData journalEntries)))"

subsection \<open>Chart of accounts: \<open>loadAccounts\<close> builds the forest\<close>

text \<open>
  The objects of \<open>accountMap\<close> are shared between the map, the \<open>children\<close> arrays and
  \<open>rootAccounts\<close>, and \<open>children\<close> is extended in place. The map is the store of the
  objects: an object is referred to by its key, and \<open>children\<close> and \<open>rootAccounts\<close>
  hold keys. \<open>if (account.parent_account_id)\<close> is false for \<open>null\<close> and for the empty
  string.
\<close>

record Account =
  account_row :: accounts_row
  children :: "uuid list"

type_synonym accountMap = "uuid \<Rightarrow> Account option"

definition first_pass :: "accounts_row list \<Rightarrow> accountMap" where
  "first_pass data =
     fold (\<lambda>account m. m(acc_id account \<mapsto> \<lparr>account_row = account, children = []\<rparr>))
       data Map.empty"

text \<open>The second pass of \<open>src/pages/ChartOfAccounts.tsx\<close>.\<close>

definition link_account ::
  "accounts_row \<Rightarrow> accountMap \<times> uuid list \<Rightarrow> accountMap \<times> uuid list" where
  "link_account account s =
     (case acc_parent_account_id account of
        None \<Rightarrow> (fst s, snd s @ [acc_id account])
      | Some p \<Rightarrow>
          if p = [] then (fst s, snd s @ [acc_id account])
          else (case fst s p of
                  Some parent \<Rightarrow>
                    ((fst s)(p \<mapsto> parent\<lparr>children := children parent @ [acc_id account]\<rparr>), snd s)
                | None \<Rightarrow> (fst s, snd s @ [acc_id account])))"

definition loadAccounts :: "accounts_row list \<Rightarrow> accountMap \<times> uuid list" where
  "loadAccounts data = fold link_account data (first_pass data, [])"

text \<open>
  The second pass of the other chart of accounts component (\<open>part_005\<close>): the inner
  \<open>if (parent)\<close> has no \<open>else\<close>.
\<close>

definition link_account_part_005 ::
  "accounts_row \<Rightarrow> accountMap \<times> uuid list \<Rightarrow> accountMap \<times> uuid list" where
  "link_account_part_005 account s =
     (case acc_parent_account_id account of
        None \<Rightarrow> (fst s, snd s @ [acc_id account])
      | Some p \<Rightarrow>
          if p = [] then (fst s, snd s @ [acc_id account])
          else (case fst s p of
                  Some parent \<Rightarrow>
                    ((fst s)(p \<mapsto> parent\<lparr>children := children parent @ [acc_id account]\<rparr>), snd s)
                | None \<Rightarrow> s))"

definition loadAccounts_part_005 :: "accounts_row list \<Rightarrow> accountMap \<times> uuid list" where
  "loadAccounts_part_005 data = fold link_account_part_005 data (first_pass data, [])"

text \<open>
  An account is shown by the page when the rendering, which starts at the roots and
  descends through \<open>children\<close>, reaches it.
\<close>

inductive in_forest :: "accountMap \<times> uuid list \<Rightarrow> uuid \<Rightarrow> bool" for f where
  in_forest_root: "k \<in> set (snd f) \<Longrightarrow> in_forest f k"
| in_forest_child:
    "in_forest f p \<Longrightarrow> fst f p = Some a \<Longrightarrow> k \<in> set (children a) \<Longrightarrow> in_forest f k"

subsection \<open>Chart of accounts: the state of the page\<close>

text \<open>
  The page keeps the roots of its last successful load in the state \<open>accounts\<close>,
  which is empty at first; a failed load leaves the state as it was. The buttons that
  call \<open>createDefaultAccounts\<close> are rendered when \<open>accounts.length === 0\<close>.
\<close>

definition page_accounts :: "'e + accounts_row list \<Rightarrow> uuid list \<Rightarrow> uuid list" where
  "page_accounts answer accounts_state =
     (case answer of Inl error \<Rightarrow> accounts_state | Inr data \<Rightarrow> snd (loadAccounts data))"

definition seed_button_shown :: "uuid list \<Rightarrow> bool" where
  "seed_button_shown accounts_state = (length accounts_state = 0)"

section \<open>Notions used to state the properties\<close>

subsection \<open>Seeding\<close>

text \<open>
  \<open>code_taken org d\<close>: some default code is already used by an account of the
  organization. \<open>fresh_ids g d\<close>: the identifiers that \<open>gen_random_uuid()\<close> yields for
  the sixteen rows are new and pairwise different.
\<close>

definition code_taken :: "uuid \<Rightarrow> db \<Rightarrow> bool" where
  "code_taken org d =
     list_ex (\<lambda>a. (Some org, fst a) \<in> set (map (\<lambda>x. (acc_organization_id x, acc_code x)) (accounts d)))
       defaultAccounts"

definition fresh_ids :: "(nat \<Rightarrow> uuid) \<Rightarrow> db \<Rightarrow> bool" where
  "fresh_ids g d =
     (distinct (map g [0..<length defaultAccounts])
      \<and> list_all (\<lambda>i. g i \<notin> set (map acc_id (accounts d))) [0..<length defaultAccounts])"

text \<open>Auxiliary notions for the proofs about seeding.\<close>

definition rows_of :: "uuid \<Rightarrow> (uuid \<times> string \<times> string \<times> account_type) list \<Rightarrow> accounts_row list" where
  "rows_of org ps = map (\<lambda>(k, a). default_row org k a) ps"

definition keys :: "accounts_row list \<Rightarrow> (uuid option \<times> string) set" where
  "keys rows = set (map (\<lambda>x. (acc_organization_id x, acc_code x)) rows)"

definition seed_pairs :: "(nat \<Rightarrow> uuid) \<Rightarrow> (uuid \<times> string \<times> string \<times> account_type) list" where
  "seed_pairs g = zip (map g [0..<length defaultAccounts]) defaultAccounts"

subsection \<open>Aggregation\<close>

definition entry_lines :: "entry \<Rightarrow> line list" where
  "entry_lines e = (case entry_journal_lines e of None \<Rightarrow> [] | Some ls \<Rightarrow> ls)"

definition all_lines :: "entry list \<Rightarrow> line list" where
  "all_lines es = concat (map entry_lines es)"

definition is_income_credit :: "line \<Rightarrow> bool" where
  "is_income_credit l =
     ((case line_accounts l of None \<Rightarrow> False | Some a \<Rightarrow> acc_type a = Income)
      \<and> js_gt0 (line_credit l))"

text \<open>
  The sum of a list of numbers as the pages compute it: from 0, adding one number
  after the other, every addition rounded.
\<close>

definition js_sum_from :: "js_number \<Rightarrow> js_number list \<Rightarrow> js_number" where
  "js_sum_from s xs = fold (\<lambda>x acc. js_add acc x) xs s"

definition js_sum :: "js_number list \<Rightarrow> js_number" where
  "js_sum xs = js_sum_from (Fin 0) xs"

text \<open>
  The credits of the lines against income accounts, and the debits of the lines against
  expense accounts, that are strictly positive, summed in the order of the lines.
\<close>

definition revenue_sum :: "line list \<Rightarrow> js_number" where
  "revenue_sum ls = js_sum (map line_credit (filter is_income_credit ls))"

definition expense_sum :: "line list \<Rightarrow> js_number" where
  "expense_sum ls = js_sum (map line_debit (filter is_expense_debit ls))"

text \<open>
  The sign convention in the words of the specification, on exact amounts: credit
  increases and debit decreases the balance of an income, liability or equity
  account; debit increases and credit decreases the balance of an asset or expense
  account. \<open>exact\<close> is the rational value of a finite number.
\<close>

fun exact :: "js_number \<Rightarrow> rat" where
  "exact (Fin a) = a"
| "exact x = 0"

definition spec_signed_delta :: "account_type \<Rightarrow> line \<Rightarrow> rat" where
  "spec_signed_delta t l =
     (if t = Income \<or> t = Liability \<or> t = Equity
      then exact (line_credit l) - exact (line_debit l)
      else exact (line_debit l) - exact (line_credit l))"

definition spec_total_by_type :: "account_type \<Rightarrow> entry list \<Rightarrow> rat" where
  "spec_total_by_type t es =
     sum_list (map (spec_signed_delta t)
       (filter (\<lambda>l. case line_accounts l of None \<Rightarrow> False | Some a \<Rightarrow> acc_type a = t)
          (all_lines es)))"

definition spec_running_balance :: "accounts_row \<Rightarrow> entry list \<Rightarrow> rat" where
  "spec_running_balance account es =
     sum_list (map (spec_signed_delta (acc_type account))
       (filter (\<lambda>l. case line_accounts l of None \<Rightarrow> False | Some a \<Rightarrow> acc_id a = acc_id account)
          (all_lines es)))"

text \<open>
  The breakdown in the words of the specification: the total of a category is the sum
  of the debits of the lines against expense accounts of that name; the categories
  are sorted by total, largest first, and by name among equal totals; the first five
  are kept.
\<close>

definition spec_category_total :: "string \<Rightarrow> line list \<Rightarrow> rat" where
  "spec_category_total n ls =
     sum_list (map (\<lambda>l. exact (line_debit l))
       (filter (\<lambda>l. (case line_accounts l of None \<Rightarrow> False
                       | Some a \<Rightarrow> acc_type a = Expense \<and> acc_name a = n)) ls))"

definition spec_category_names :: "line list \<Rightarrow> string list" where
  "spec_category_names ls =
     remdups (map account_name
       (filter (\<lambda>l. case line_accounts l of None \<Rightarrow> False | Some a \<Rightarrow> acc_type a = Expense) ls))"

fun spec_name_less :: "string \<Rightarrow> string \<Rightarrow> bool" where
  "spec_name_less [] [] = False"
| "spec_name_less [] (d # ds) = True"
| "spec_name_less (c # cs) [] = False"
| "spec_name_less (c # cs) (d # ds) =
     ((of_char c :: nat) < of_char d \<or> (c = d \<and> spec_name_less cs ds))"

fun spec_insert :: "(string \<times> rat) \<Rightarrow> (string \<times> rat) list \<Rightarrow> (string \<times> rat) list" where
  "spec_insert p [] = [p]"
| "spec_insert p (q # qs) =
     (if snd q < snd p \<or> (snd q = snd p \<and> spec_name_less (fst p) (fst q)) then p # q # qs
      else q # spec_insert p qs)"

definition spec_breakdown :: "line list \<Rightarrow> (string \<times> rat) list" where
  "spec_breakdown ls =
     take 5 (foldr spec_insert
       (map (\<lambda>n. (n, spec_category_total n ls)) (spec_category_names ls)) [])"

subsection \<open>The forest\<close>

text \<open>
  An account is a root when it has no parent, or its parent is none of the loaded
  identifiers \<open>ids\<close>. \<open>parent_rel\<close> relates the identifier of a loaded parent to the
  identifier of its child.
\<close>

definition is_root :: "uuid set \<Rightarrow> accounts_row \<Rightarrow> bool" where
  "is_root ids a =
     (case acc_parent_account_id a of None \<Rightarrow> True | Some p \<Rightarrow> p = [] \<or> p \<notin> ids)"

definition parent_rel :: "accounts_row list \<Rightarrow> (uuid \<times> uuid) set" where
  "parent_rel data =
     {(p, k). \<exists>a \<in> set data. acc_id a = k \<and> acc_parent_account_id a = Some p
                \<and> p \<noteq> [] \<and> p \<in> acc_id ` set data}"

section \<open>Sample data\<close>

definition cash_account :: accounts_row where
  "cash_account =
     \<lparr>acc_id = ''a-cash'', acc_organization_id = Some ''org-1'', acc_code = ''1000'',
      acc_name = ''Cash and Cash Equivalents'', acc_type = Asset,
      acc_parent_account_id = None, acc_is_active = True\<rparr>"

definition ledger0 :: db where
  "ledger0 =
     \<lparr>organizations = [''org-1''], accounts = [cash_account], journal_entries = [],
      journal_lines = []\<rparr>"

definition entry1 :: journal_entries_row where
  "entry1 =
     \<lparr>je_id = ''e-1'', je_organization_id = Some ''org-1'', je_date = ''2024-03-01'',
      je_description = ''Opening balance''\<rparr>"

definition debit_line :: journal_lines_row where
  "debit_line =
     \<lparr>jl_id = ''l-1'', jl_entry_id = Some ''e-1'', jl_account_id = Some ''a-cash'',
      jl_debit = Some 10000, jl_credit = Some 0\<rparr>"

definition zero_line :: journal_lines_row where
  "zero_line =
     \<lparr>jl_id = ''l-2'', jl_entry_id = Some ''e-1'', jl_account_id = Some ''a-cash'',
      jl_debit = Some 0, jl_credit = Some 0\<rparr>"

definition ledger1 :: db where
  "ledger1 = ledger0\<lparr>journal_entries := [entry1]\<rparr>"

definition ledger_unbalanced :: db where
  "ledger_unbalanced = ledger1\<lparr>journal_lines := [debit_line]\<rparr>"

definition ledger_zero_line :: db where
  "ledger_zero_line = ledger1\<lparr>journal_lines := [zero_line]\<rparr>"

text \<open>Sample data for seeding.\<close>

definition sample_uuid :: "nat \<Rightarrow> uuid" where
  "sample_uuid i = replicate (Suc i) (CHR ''u'')"

definition petty_cash :: accounts_row where
  "petty_cash =
     \<lparr>acc_id = ''a-petty'', acc_organization_id = Some ''org-1'', acc_code = ''9999'',
      acc_name = ''Petty Cash'', acc_type = Asset,
      acc_parent_account_id = None, acc_is_active = True\<rparr>"

definition ledger_petty :: db where
  "ledger_petty =
     \<lparr>organizations = [''org-1''], accounts = [petty_cash], journal_entries = [],
      journal_lines = []\<rparr>"

definition sample_month_of :: "string \<Rightarrow> string" where
  "sample_month_of d = months ! (numeric_value (take 2 (drop 5 d)) - 1)"

definition sample_account :: "string \<Rightarrow> string \<Rightarrow> account_type \<Rightarrow> accounts_row" where
  "sample_account k n t =
     \<lparr>acc_id = k, acc_organization_id = Some ''org-1'', acc_code = k, acc_name = n,
      acc_type = t, acc_parent_account_id = None, acc_is_active = True\<rparr>"

definition sales_account :: accounts_row where
  "sales_account = sample_account ''4000'' ''Sales Revenue'' Income"

definition rent_account :: accounts_row where
  "rent_account = sample_account ''6100'' ''Rent Expense'' Expense"

definition sample_line :: "string \<Rightarrow> accounts_row \<Rightarrow> rat \<Rightarrow> rat \<Rightarrow> line" where
  "sample_line k a d c =
     \<lparr>line_id = k, line_debit = Fin d, line_credit = Fin c, line_accounts = Some a\<rparr>"

definition sample_entry :: "string \<Rightarrow> string \<Rightarrow> line list \<Rightarrow> entry" where
  "sample_entry k d ls =
     \<lparr>entry_id = k, entry_date = d, entry_description = ''entry '' @ k,
      entry_journal_lines = Some ls\<rparr>"

text \<open>A sale of 1000 and a rent payment of 400.\<close>

definition sale_and_rent :: "entry list" where
  "sale_and_rent =
     [sample_entry ''e2'' ''2024-03-05'' [sample_line ''l2'' rent_account 400 0],
      sample_entry ''e1'' ''2024-03-01'' [sample_line ''l1'' sales_account 0 1000]]"

text \<open>A sale of 1000 and a refund of 200 debited to the same income account.\<close>

definition sale_and_refund :: "entry list" where
  "sale_and_refund =
     [sample_entry ''e2'' ''2024-03-05'' [sample_line ''l2'' sales_account 200 0],
      sample_entry ''e1'' ''2024-03-01'' [sample_line ''l1'' sales_account 0 1000]]"

text \<open>A deposit of 100 debited to the cash account.\<close>

definition cash_deposit :: "entry list" where
  "cash_deposit =
     [sample_entry ''e1'' ''2024-03-01''
        [sample_line ''l1'' cash_account 100 0, sample_line ''l2'' sales_account 0 100]]"

text \<open>
  Six expense payments, newest first: rent 100, marketing 100, and four more of
  1, 2, 3 and 1000.
\<close>

definition six_expenses :: "entry list" where
  "six_expenses =
     [sample_entry ''e6'' ''2024-06-01''
        [sample_line ''l6'' (sample_account ''6100'' ''Rent Expense'' Expense) 100 0],
      sample_entry ''e5'' ''2024-05-01''
        [sample_line ''l5'' (sample_account ''6300'' ''Marketing Expense'' Expense) 100 0],
      sample_entry ''e4'' ''2024-04-01''
        [sample_line ''l4'' (sample_account ''6200'' ''Utilities Expense'' Expense) 1 0],
      sample_entry ''e3'' ''2024-03-01''
        [sample_line ''l3'' (sample_account ''6000'' ''Operating Expenses'' Expense) 2 0],
      sample_entry ''e2'' ''2024-02-01''
        [sample_line ''l2'' (sample_account ''6400'' ''Insurance Expense'' Expense) 3 0],
      sample_entry ''e1'' ''2024-01-01''
        [sample_line ''l1'' (sample_account ''5000'' ''Cost of Goods Sold'' Expense) 1000 0]]"


text \<open>
  Two expense payments, against accounts named \<open>constructor\<close> and \<open>__proto__\<close>.
\<close>

definition inherited_names :: "entry list" where
  "inherited_names =
     [sample_entry ''e2'' ''2024-02-01''
        [sample_line ''l2'' (sample_account ''6100'' ''constructor'' Expense) 5 0],
      sample_entry ''e1'' ''2024-01-01''
        [sample_line ''l1'' (sample_account ''6200'' ''__proto__'' Expense) 7 0]]"

text \<open>An account whose parent is not among the loaded accounts.\<close>

definition orphan_account :: accounts_row where
  "orphan_account =
     \<lparr>acc_id = ''a-child'', acc_organization_id = Some ''org-1'', acc_code = ''1010'',
      acc_name = ''Petty Cash'', acc_type = Asset,
      acc_parent_account_id = Some ''a-gone'', acc_is_active = True\<rparr>"

text \<open>An account that is its own parent.\<close>

definition self_parent :: accounts_row where
  "self_parent =
     \<lparr>acc_id = ''a-loop'', acc_organization_id = Some ''org-1'', acc_code = ''1020'',
      acc_name = ''Clearing'', acc_type = Asset,
      acc_parent_account_id = Some ''a-loop'', acc_is_active = True\<rparr>"

section \<open>The arithmetic of numbers\<close>

text \<open>
  How \<open>fl\<close> is evaluated: the binade of a number is identified by its two bounds, and
  a quotient that is closer than one half to an integer rounds to that integer.
\<close>

lemma pow2_less_exp: "(2::int) ^ a < 2 ^ b \<Longrightarrow> a < b"
proof -
  assume h: "(2::int) ^ a < 2 ^ b"
  have one: "(1::int) < 2" by simp
  show "a < b" by (rule power_less_imp_less_exp[OF one h])
qed

lemma bitlen_unique:
  assumes "2 ^ j \<le> m" and "m < 2 ^ Suc j"
  shows "bitlen m = int j + 1"
proof -
  have "(0::int) < 2 ^ j" by simp
  then have pos: "0 < m" using assms(1) by linarith
  from bitlen_bounds[OF pos]
  have lo: "2 ^ nat (bitlen m - 1) \<le> m" and hi: "m < 2 ^ nat (bitlen m)" by auto
  have b1: "1 \<le> bitlen m" using pos bitlen_eq_zero_iff[of m] bitlen_nonneg[of m] by linarith
  have "(2::int) ^ nat (bitlen m - 1) < 2 ^ Suc j" using lo assms(2) by linarith
  then have "nat (bitlen m - 1) < Suc j" by (rule pow2_less_exp)
  moreover have "(2::int) ^ j < 2 ^ nat (bitlen m)" using hi assms(1) by linarith
  then have "j < nat (bitlen m)" by (rule pow2_less_exp)
  ultimately show ?thesis using b1 by linarith
qed

lemma floor_log2_unique_nonneg:
  assumes "2 ^ j \<le> a" and "a < 2 ^ Suc j"
  shows "floor_log2 a = int j"
proof -
  have a1: "1 \<le> a" using assms(1) one_le_power[of "2::rat" j] by linarith
  have "(2::int) ^ j \<le> \<lfloor>a\<rfloor>" using assms(1) by (simp add: le_floor_iff)
  moreover have "\<lfloor>a\<rfloor> < 2 ^ Suc j" using assms(2) by (simp add: floor_less_iff)
  ultimately have "bitlen \<lfloor>a\<rfloor> = int j + 1" by (rule bitlen_unique)
  then show ?thesis using a1 by (simp add: floor_log2_def)
qed

lemma floor_log2_unique_neg:
  assumes "1 / 2 ^ Suc j \<le> a" and "a < 1 / 2 ^ j"
  shows "floor_log2 a = - int (Suc j)"
proof -
  have "(0::rat) < 1 / 2 ^ Suc j" by simp
  then have apos: "0 < a" using assms(1) by linarith
  have "(1::rat) / 2 ^ j \<le> 1" using one_le_power[of "2::rat" j] by (simp add: field_simps)
  then have a1: "a < 1" using assms(2) by linarith
  have up: "1 / a \<le> 2 ^ Suc j"
    using assms(1) apos by (simp add: field_simps)
  have lo: "2 ^ j < 1 / a"
    using assms(2) apos by (simp add: field_simps)
  have "\<lceil>1 / a\<rceil> \<le> 2 ^ Suc j" using up by (simp add: ceiling_le_iff)
  then have 1: "\<lceil>1 / a\<rceil> - 1 < 2 ^ Suc j" by linarith
  have "(2::int) ^ j < \<lceil>1 / a\<rceil>" using lo by (simp add: less_ceiling_iff)
  then have 2: "(2::int) ^ j \<le> \<lceil>1 / a\<rceil> - 1" by linarith
  from bitlen_unique[OF 2 1] a1 show ?thesis by (simp add: floor_log2_def)
qed

lemma round_half_even_near:
  assumes "\<bar>q - of_int n\<bar> < 1 / 2"
  shows "round_half_even q = n"
proof -
  have lo: "of_int n - 1 / 2 < q" and hi: "q < of_int n + 1 / 2"
    using assms by linarith+
  have "of_int (n - 1) \<le> q" using lo by simp
  then have 1: "n - 1 \<le> \<lfloor>q\<rfloor>" by (simp only: le_floor_iff)
  have "q < of_int (n + 1)" using hi by simp
  then have "\<lfloor>q\<rfloor> < n + 1" by (simp only: floor_less_iff)
  with 1 consider "\<lfloor>q\<rfloor> = n" | "\<lfloor>q\<rfloor> = n - 1" by linarith
  then show ?thesis
  proof cases
    case 1
    then have "q - of_int \<lfloor>q\<rfloor> < 1 / 2" using hi by simp
    then show ?thesis using 1 by (simp add: round_half_even_def)
  next
    case 2
    then have "1 / 2 < q - of_int \<lfloor>q\<rfloor>" using lo by simp
    then have "\<not> q - of_int \<lfloor>q\<rfloor> < 1 / 2" by linarith
    then show ?thesis using 2 \<open>1 / 2 < q - of_int \<lfloor>q\<rfloor>\<close> by (simp add: round_half_even_def)
  qed
qed

lemma fl_pos_rounded:
  assumes "floor_log2 a = k" and "- 1022 \<le> k"
    and "round_half_even (a / 2 powi (k - 52)) = n"
    and "of_int n * 2 powi (k - 52) < (2::rat) ^ 1024"
  shows "fl_pos a = Fin (of_int n * 2 powi (k - 52))"
proof -
  have e: "ulp_exponent a = k - 52" using assms(1,2) by (simp add: ulp_exponent_def)
  show ?thesis using assms(4) by (simp add: fl_pos_def e assms(3))
qed

lemma fl_pos_round:
  assumes "floor_log2 a = k" and "- 1022 \<le> k"
    and "\<bar>a / 2 powi (k - 52) - of_int n\<bar> < 1 / 2"
    and "of_int n * 2 powi (k - 52) < (2::rat) ^ 1024"
  shows "fl_pos a = Fin (of_int n * 2 powi (k - 52))"
  using assms(1,2) round_half_even_near[OF assms(3)] assms(4) by (rule fl_pos_rounded)

lemma big: "(9007199254740992::rat) < 2 ^ 1024"
proof -
  have "(2::rat) ^ 53 < 2 ^ 1024" by (rule power_strict_increasing) simp_all
  then show ?thesis by simp
qed

lemma fl_3_5: "fl (3 / 5) = Fin (5404319552844595 / 9007199254740992)"
proof -
  have k: "floor_log2 (3 / 5) = - int (Suc 0)"
    by (rule floor_log2_unique_neg) simp_all
  have "fl_pos (3 / 5) = Fin (of_int 5404319552844595 * 2 powi (- int (Suc 0) - 52))"
  proof (rule fl_pos_round[OF k])
    show "- 1022 \<le> - int (Suc 0)" by simp
    show "\<bar>3 / 5 / 2 powi (- int (Suc 0) - 52) - rat_of_int 5404319552844595\<bar> < 1 / 2"
      by (simp add: power_int_minus_divide)
    show "rat_of_int 5404319552844595 * 2 powi (- int (Suc 0) - 52) < 2 ^ 1024"
      using big by (simp add: power_int_minus_divide)
  qed
  then show ?thesis by (simp add: fl_def power_int_minus_divide)
qed


lemma fl_60: "fl (5404319552844595 / 9007199254740992 * 100) = Fin 60"
proof -
  let ?a = "5404319552844595 / 9007199254740992 * 100 :: rat"
  have k: "floor_log2 ?a = int 5"
    by (rule floor_log2_unique_nonneg) simp_all
  have "fl_pos ?a = Fin (of_int 8444249301319680 * 2 powi (int 5 - 52))"
  proof (rule fl_pos_round[OF k])
    show "- 1022 \<le> int 5" by simp
    show "\<bar>?a / 2 powi (int 5 - 52) - rat_of_int 8444249301319680\<bar> < 1 / 2"
      by (simp add: power_int_minus_divide)
    show "rat_of_int 8444249301319680 * 2 powi (int 5 - 52) < 2 ^ 1024"
      using big by (simp add: power_int_minus_divide)
  qed
  then show ?thesis by (simp add: fl_def power_int_minus_divide)
qed

lemma fl_pos_int_exact:
  assumes "0 < n" and "n < 2 ^ 53"
  shows "fl_pos (of_int n) = Fin (of_int n)"
proof -
  define j where "j = nat (bitlen n - 1)"
  have b1: "1 \<le> bitlen n" using assms(1) bitlen_eq_zero_iff[of n] bitlen_nonneg[of n] by linarith
  then have sj: "nat (bitlen n) = Suc j" by (simp add: j_def)
  from bitlen_bounds[OF assms(1)]
  have lo: "2 ^ j \<le> n" and hi: "n < 2 ^ Suc j" by (auto simp: j_def sj simp del: power_Suc)
  have "(2::int) ^ j < 2 ^ 53" using lo assms(2) by linarith
  then have j53: "j < 53" by (rule pow2_less_exp)
  have "rat_of_int (2 ^ j) \<le> of_int n" using lo by (simp only: of_int_le_iff)
  then have lo': "(2::rat) ^ j \<le> of_int n" by simp
  have "rat_of_int n < of_int (2 ^ Suc j)" using hi by (simp only: of_int_less_iff)
  then have hi': "(of_int n :: rat) < 2 ^ Suc j" by simp
  from lo' hi' have k: "floor_log2 (of_int n) = int j" by (rule floor_log2_unique_nonneg)
  have p: "(2::rat) powi (int j - 52) = 1 / 2 ^ (52 - j)"
  proof -
    have "int j - 52 = - int (52 - j)" using j53 by simp
    then show ?thesis by (simp only: power_int_minus_divide power_int_of_nat)
  qed
  have restore: "rat_of_int (n * 2 ^ (52 - j)) * 2 powi (int j - 52) = of_int n" by (simp add: p)
  have "rat_of_int n < of_int (2 ^ 53)" using assms(2) by (simp only: of_int_less_iff)
  then have n53: "(of_int n :: rat) < 9007199254740992" by simp
  have "fl_pos (of_int n) = Fin (of_int (n * 2 ^ (52 - j)) * 2 powi (int j - 52))"
  proof (rule fl_pos_round[OF k])
    show "- 1022 \<le> int j" by simp
    show "\<bar>rat_of_int n / 2 powi (int j - 52) - rat_of_int (n * 2 ^ (52 - j))\<bar> < 1 / 2"
      by (simp add: p)
    show "rat_of_int (n * 2 ^ (52 - j)) * 2 powi (int j - 52) < 2 ^ 1024"
      unfolding restore using n53 big by linarith
  qed
  then show ?thesis by (simp only: restore)
qed

lemma fl_int_exact:
  assumes "\<bar>n\<bar> < 2 ^ 53"
  shows "fl (of_int n) = Fin (of_int n)"
proof -
  consider "n = 0" | "0 < n" | "n < 0" by linarith
  then show ?thesis
  proof cases
    case 1
    then show ?thesis by (simp add: fl_def)
  next
    case 2
    then have "fl_pos (of_int n) = Fin (of_int n)" using assms by (intro fl_pos_int_exact) simp_all
    then show ?thesis using 2 by (simp add: fl_def)
  next
    case 3
    then have "fl_pos (of_int (- n)) = Fin (of_int (- n))" using assms by (intro fl_pos_int_exact) simp_all
    then show ?thesis using 3 by (simp add: fl_def)
  qed
qed

lemma fl_numeral: "numeral w < (2::int) ^ 53 \<Longrightarrow> fl (numeral w) = Fin (numeral w)"
  using fl_int_exact[of "numeral w"] by simp

lemma fl_neg_numeral:
  "numeral w < (2::int) ^ 53 \<Longrightarrow> fl (- numeral w) = Fin (- numeral w)"
  using fl_int_exact[of "- numeral w"] by simp

lemma fl_0: "fl 0 = Fin 0"
  by (simp add: fl_def)

lemma fl_1: "fl 1 = Fin 1"
  using fl_int_exact[of 1] by simp

lemmas fl_whole = fl_0 fl_1 fl_numeral fl_neg_numeral

text \<open>
  The model rounds as a double does: \<open>0.1 + 0.2\<close> is \<open>0.30000000000000004\<close>, one unit
  in the last place above the double \<open>0.3\<close>; the exact sum of the two doubles lies
  halfway between two doubles and goes to the one with the even significand.
\<close>

lemma fl_1_10: "fl (1 / 10) = Fin (7205759403792794 / 72057594037927936)"
proof -
  have k: "floor_log2 (1 / 10) = - int (Suc 3)"
    by (rule floor_log2_unique_neg) simp_all
  have "fl_pos (1 / 10) = Fin (of_int 7205759403792794 * 2 powi (- int (Suc 3) - 52))"
  proof (rule fl_pos_round[OF k])
    show "- 1022 \<le> - int (Suc 3)" by simp
    show "\<bar>1 / 10 / 2 powi (- int (Suc 3) - 52) - rat_of_int 7205759403792794\<bar> < 1 / 2"
      by (simp add: power_int_minus_divide)
    show "rat_of_int 7205759403792794 * 2 powi (- int (Suc 3) - 52) < 2 ^ 1024"
      using big by (simp add: power_int_minus_divide)
  qed
  then show ?thesis by (simp add: fl_def power_int_minus_divide)
qed

lemma fl_2_10: "fl (2 / 10) = Fin (7205759403792794 / 36028797018963968)"
proof -
  have k: "floor_log2 (1 / 5) = - int (Suc 2)"
    by (rule floor_log2_unique_neg) simp_all
  have "fl_pos (1 / 5) = Fin (of_int 7205759403792794 * 2 powi (- int (Suc 2) - 52))"
  proof (rule fl_pos_round[OF k])
    show "- 1022 \<le> - int (Suc 2)" by simp
    show "\<bar>1 / 5 / 2 powi (- int (Suc 2) - 52) - rat_of_int 7205759403792794\<bar> < 1 / 2"
      by (simp add: power_int_minus_divide)
    show "rat_of_int 7205759403792794 * 2 powi (- int (Suc 2) - 52) < 2 ^ 1024"
      using big by (simp add: power_int_minus_divide)
  qed
  then show ?thesis by (simp add: fl_def power_int_minus_divide)
qed

lemma fl_3_10: "fl (3 / 10) = Fin (5404319552844595 / 18014398509481984)"
proof -
  have k: "floor_log2 (3 / 10) = - int (Suc 1)"
    by (rule floor_log2_unique_neg) simp_all
  have "fl_pos (3 / 10) = Fin (of_int 5404319552844595 * 2 powi (- int (Suc 1) - 52))"
  proof (rule fl_pos_round[OF k])
    show "- 1022 \<le> - int (Suc 1)" by simp
    show "\<bar>3 / 10 / 2 powi (- int (Suc 1) - 52) - rat_of_int 5404319552844595\<bar> < 1 / 2"
      by (simp add: power_int_minus_divide)
    show "rat_of_int 5404319552844595 * 2 powi (- int (Suc 1) - 52) < 2 ^ 1024"
      using big by (simp add: power_int_minus_divide)
  qed
  then show ?thesis by (simp add: fl_def power_int_minus_divide)
qed

lemma fl_tie: "fl (21617278211378382 / 72057594037927936) = Fin (5404319552844596 / 18014398509481984)"
proof -
  let ?a = "21617278211378382 / 72057594037927936 :: rat"
  have k: "floor_log2 ?a = - int (Suc 1)"
    by (rule floor_log2_unique_neg) simp_all
  have "fl_pos ?a = Fin (of_int 5404319552844596 * 2 powi (- int (Suc 1) - 52))"
  proof (rule fl_pos_rounded[OF k])
    show "- 1022 \<le> - int (Suc 1)" by simp
    have q: "?a / 2 powi (- int (Suc 1) - 52) = 10808639105689191 / 2"
      by (simp add: power_int_minus_divide)
    have f: "\<lfloor>10808639105689191 / 2 :: rat\<rfloor> = 5404319552844595"
      by (rule floor_unique) simp_all
    show "round_half_even (?a / 2 powi (- int (Suc 1) - 52)) = 5404319552844596"
      unfolding q by (simp add: round_half_even_def f)
    show "rat_of_int 5404319552844596 * 2 powi (- int (Suc 1) - 52) < 2 ^ 1024"
      using big by (simp add: power_int_minus_divide)
  qed
  then show ?thesis by (simp add: fl_def power_int_minus_divide)
qed

lemma one_tenth_plus_two_tenths:
  "js_add (fl (1 / 10)) (fl (2 / 10)) = Fin (5404319552844596 / 18014398509481984)
   \<and> fl (3 / 10) = Fin (5404319552844595 / 18014398509481984)"
proof -
  have "js_add (fl (1 / 10)) (fl (2 / 10))
        = fl (7205759403792794 / 72057594037927936 + 7205759403792794 / 36028797018963968)"
    by (simp only: fl_1_10 fl_2_10 js_add.simps)
  also have "7205759403792794 / 72057594037927936 + 7205759403792794 / 36028797018963968
             = (21617278211378382 / 72057594037927936 :: rat)"
    by simp
  finally show ?thesis by (simp only: fl_tie fl_3_10 simp_thms)
qed

section \<open>The journal tables: what the store enforces\<close>

lemma sql_and_False: "sql_and a b = Some False \<longleftrightarrow> a = Some False \<or> b = Some False"
  by (induction a b rule: sql_and.induct) auto

lemma sql_and_True: "sql_and a b = Some True \<longleftrightarrow> a = Some True \<and> b = Some True"
  by (induction a b rule: sql_and.induct) auto

lemma checks_amounts:
  assumes "journal_lines_check1 l" "journal_lines_check2 l"
  shows "0 \<le> amount (jl_debit l) \<and> 0 \<le> amount (jl_credit l)
         \<and> (amount (jl_debit l) = 0 \<or> amount (jl_credit l) = 0)"
proof -
  have c1: "sql_ge (jl_debit l) 0 \<noteq> Some False" "sql_ge (jl_credit l) 0 \<noteq> Some False"
    using assms(1) by (simp_all add: journal_lines_check1_def check_passes_def sql_and_False)
  have c2: "\<not> (sql_gt (jl_debit l) 0 = Some True \<and> sql_gt (jl_credit l) 0 = Some True)"
    using assms(2)
    by (cases "sql_and (sql_gt (jl_debit l) 0) (sql_gt (jl_credit l) 0)")
       (auto simp: journal_lines_check2_def check_passes_def sql_and_True)
  show ?thesis
    using c1 c2 by (cases "jl_debit l"; cases "jl_credit l") (auto simp: amount_def)
qed

lemma insert_journal_line_lines:
  assumes "insert_journal_line l d = Inr d'"
  shows "journal_lines d' = journal_lines d @ [l]
         \<and> journal_lines_check1 l \<and> journal_lines_check2 l"
  using assms by (auto simp: insert_journal_line_def split: if_splits)

lemma insert_journal_entry_lines:
  "insert_journal_entry e d = Inr d' \<Longrightarrow> journal_lines d' = journal_lines d"
  by (auto simp: insert_journal_entry_def split: if_splits)

lemma insert_accounts_lines:
  "insert_accounts rs d = Inr d' \<Longrightarrow> journal_lines d' = journal_lines d"
  by (auto simp: insert_accounts_def split: if_splits option.splits)

lemma delete_account_lines:
  "delete_account k d = Inr d' \<Longrightarrow> set (journal_lines d') \<subseteq> set (journal_lines d)"
  by (auto simp: delete_account_def)

lemma persisted_lines_checked:
  "persisted d \<Longrightarrow> l \<in> set (journal_lines d)
   \<Longrightarrow> journal_lines_check1 l \<and> journal_lines_check2 l"
proof (induction arbitrary: l rule: persisted.induct)
  case (persisted_init d)
  then show ?case by simp
next
  case (persisted_line d l' d')
  then show ?case using insert_journal_line_lines[OF persisted_line.hyps(2)] by auto
next
  case (persisted_entry d e d')
  then show ?case using insert_journal_entry_lines[OF persisted_entry.hyps(2)] by auto
next
  case (persisted_accounts d rs d')
  then show ?case using insert_accounts_lines[OF persisted_accounts.hyps(2)] by auto
next
  case (persisted_delete d k d')
  then show ?case using delete_account_lines[OF persisted_delete.hyps(2)] by auto
qed

lemma insert_entry1: "insert_journal_entry entry1 ledger0 = Inr ledger1"
  by (simp add: insert_journal_entry_def ledger0_def ledger1_def entry1_def references_def)

lemma insert_debit_line: "insert_journal_line debit_line ledger1 = Inr ledger_unbalanced"
  by (simp add: insert_journal_line_def ledger0_def ledger1_def ledger_unbalanced_def
      entry1_def debit_line_def cash_account_def references_def numeric_15_2_def
      journal_lines_check1_def journal_lines_check2_def check_passes_def)

lemma insert_zero_line: "insert_journal_line zero_line ledger1 = Inr ledger_zero_line"
  by (simp add: insert_journal_line_def ledger0_def ledger1_def ledger_zero_line_def
      entry1_def zero_line_def cash_account_def references_def numeric_15_2_def
      journal_lines_check1_def journal_lines_check2_def check_passes_def)

lemma persisted_ledger1: "persisted ledger1"
  by (rule persisted_entry[OF persisted_init insert_entry1]) (simp add: ledger0_def)

lemma persisted_ledger_unbalanced: "persisted ledger_unbalanced"
  by (rule persisted_line[OF persisted_ledger1 insert_debit_line])

lemma persisted_ledger_zero_line: "persisted ledger_zero_line"
  by (rule persisted_line[OF persisted_ledger1 insert_zero_line])

text \<open>
  C1 (as stated: every recorded entry has equal debit and credit totals). The tables
  accept an entry with the single line debit 100.00, credit 0.00: its totals are
  10000 and 0 minor units.
\<close>

theorem unbalanced_entry_recorded:
  "insert_journal_entry entry1 ledger0 = Inr ledger1
   \<and> insert_journal_line debit_line ledger1 = Inr ledger_unbalanced
   \<and> persisted ledger_unbalanced
   \<and> sum_debit (lines_of_entry ledger_unbalanced ''e-1'') = 10000
   \<and> sum_credit (lines_of_entry ledger_unbalanced ''e-1'') = 0
   \<and> sum_debit (lines_of_entry ledger_unbalanced ''e-1'')
       \<noteq> sum_credit (lines_of_entry ledger_unbalanced ''e-1'')"
proof -
  have "sum_debit (lines_of_entry ledger_unbalanced ''e-1'') = 10000"
    and "sum_credit (lines_of_entry ledger_unbalanced ''e-1'') = 0"
    by (simp_all add: sum_debit_def sum_credit_def lines_of_entry_def
        ledger_unbalanced_def debit_line_def amount_def)
  then show ?thesis
    using insert_entry1 insert_debit_line persisted_ledger_unbalanced by simp
qed

text \<open>
  C1 (amended): for every entry of a store reached by accepted writes, the debit total
  and the credit total of its lines are each non-negative, in minor units; nothing
  relates the two totals.
\<close>

theorem entry_totals_nonneg:
  assumes "persisted d"
  shows "0 \<le> sum_debit (lines_of_entry d k) \<and> 0 \<le> sum_credit (lines_of_entry d k)"
  unfolding sum_debit_def sum_credit_def lines_of_entry_def
  using persisted_lines_checked[OF assms] checks_amounts
  by (auto intro!: sum_list_nonneg)

theorem entry_totals_nonneg_witness:
  "persisted ledger_unbalanced
   \<and> 0 \<le> sum_debit (lines_of_entry ledger_unbalanced ''e-1'')
   \<and> 0 \<le> sum_credit (lines_of_entry ledger_unbalanced ''e-1'')"
  using entry_totals_nonneg[OF persisted_ledger_unbalanced, of "''e-1''"]
    persisted_ledger_unbalanced by simp

text \<open>
  C2 (as stated: exactly one of debit and credit is strictly positive on every
  persisted line). The table accepts the line with debit 0 and credit 0, the defaults
  of both columns.
\<close>

theorem zero_line_persisted:
  "insert_journal_line zero_line ledger1 = Inr ledger_zero_line
   \<and> persisted ledger_zero_line
   \<and> zero_line \<in> set (journal_lines ledger_zero_line)
   \<and> jl_debit zero_line = Some 0 \<and> jl_credit zero_line = Some 0
   \<and> \<not> ((0 < amount (jl_debit zero_line)) \<noteq> (0 < amount (jl_credit zero_line)))"
proof -
  have "zero_line \<in> set (journal_lines ledger_zero_line)"
    by (simp add: ledger_zero_line_def)
  moreover have "jl_debit zero_line = Some 0" and "jl_credit zero_line = Some 0"
    by (simp_all add: zero_line_def)
  ultimately show ?thesis
    using insert_zero_line persisted_ledger_zero_line by (simp add: amount_def)
qed

text \<open>
  C2 (amended): on every persisted line, debit and credit are non-negative and never
  both strictly positive (a \<open>NULL\<close> amount counts as zero); both may be zero.
\<close>

theorem persisted_line_amounts:
  assumes "persisted d" and "l \<in> set (journal_lines d)"
  shows "0 \<le> amount (jl_debit l) \<and> 0 \<le> amount (jl_credit l)
         \<and> \<not> (0 < amount (jl_debit l) \<and> 0 < amount (jl_credit l))"
  using checks_amounts persisted_lines_checked[OF assms] by fastforce

theorem persisted_line_amounts_witness:
  "persisted ledger_unbalanced \<and> debit_line \<in> set (journal_lines ledger_unbalanced)
   \<and> 0 \<le> amount (jl_debit debit_line) \<and> 0 \<le> amount (jl_credit debit_line)
   \<and> \<not> (0 < amount (jl_debit debit_line) \<and> 0 < amount (jl_credit debit_line))"
proof -
  have m: "debit_line \<in> set (journal_lines ledger_unbalanced)"
    by (simp add: ledger_unbalanced_def)
  show ?thesis
    using persisted_line_amounts[OF persisted_ledger_unbalanced m]
      persisted_ledger_unbalanced m by simp
qed

section \<open>Deleting an account\<close>

lemma delete_account_Inr:
  "delete_account k d =
     Inr (d\<lparr>accounts := map (set_null_parent k) (filter (\<lambda>r. acc_id r \<noteq> k) (accounts d)),
           journal_lines := filter (\<lambda>l. jl_account_id l \<noteq> Some k) (journal_lines d)\<rparr>)"
  by (simp add: delete_account_def)

lemma set_null_parent_id: "acc_id (set_null_parent k r) = acc_id r"
  by (simp add: set_null_parent_def)

text \<open>
  C3 (as stated: deleting a referenced account fails with AccountInUse and changes
  nothing). The cash account is referenced by a journal line; deleting it succeeds and
  removes both the account and the line.
\<close>

theorem referenced_account_deleted:
  "cash_account \<in> set (accounts ledger_unbalanced)
   \<and> debit_line \<in> set (journal_lines ledger_unbalanced)
   \<and> jl_account_id debit_line = Some (acc_id cash_account)
   \<and> fst (handleDeleteAccount True (acc_id cash_account) ledger_unbalanced)
       = Some (toast_success ''Account deleted successfully!'')
   \<and> accounts (snd (handleDeleteAccount True (acc_id cash_account) ledger_unbalanced)) = []
   \<and> journal_lines (snd (handleDeleteAccount True (acc_id cash_account) ledger_unbalanced)) = []"
  by (simp add: handleDeleteAccount_def delete_account_Inr ledger_unbalanced_def ledger1_def
      ledger0_def cash_account_def debit_line_def)

text \<open>
  C3 (amended): a confirmed \<open>handleDeleteAccount\<close> always succeeds; afterwards the
  account is gone, no account has it as parent, the journal lines that referenced it
  are deleted with it, and all other lines, accounts and entries are kept.
\<close>

theorem delete_account_cascades:
  "handleDeleteAccount True k d = (t, d') \<Longrightarrow>
     t = Some (toast_success ''Account deleted successfully!'')
     \<and> k \<notin> set (map acc_id (accounts d'))
     \<and> map acc_id (accounts d') = filter (\<lambda>i. i \<noteq> k) (map acc_id (accounts d))
     \<and> (\<forall>r \<in> set (accounts d'). acc_parent_account_id r \<noteq> Some k)
     \<and> journal_lines d' = filter (\<lambda>l. jl_account_id l \<noteq> Some k) (journal_lines d)
     \<and> (\<forall>l \<in> set (journal_lines d'). jl_account_id l \<noteq> Some k)
     \<and> journal_entries d' = journal_entries d"
proof -
  assume h: "handleDeleteAccount True k d = (t, d')"
  from h have t: "t = Some (toast_success ''Account deleted successfully!'')"
    and d': "d' = d\<lparr>accounts := map (set_null_parent k) (filter (\<lambda>r. acc_id r \<noteq> k) (accounts d)),
           journal_lines := filter (\<lambda>l. jl_account_id l \<noteq> Some k) (journal_lines d)\<rparr>"
    by (simp_all add: handleDeleteAccount_def delete_account_Inr)
  have a: "map acc_id (accounts d') = filter (\<lambda>i. i \<noteq> k) (map acc_id (accounts d))"
    unfolding d' by (simp add: set_null_parent_id filter_map comp_def)
  then have b: "k \<notin> set (map acc_id (accounts d'))" by simp
  have c: "\<forall>r \<in> set (accounts d'). acc_parent_account_id r \<noteq> Some k"
    unfolding d' by (auto simp: set_null_parent_def)
  show ?thesis using t a b c by (simp add: d')
qed

theorem delete_account_cascades_witness:
  "handleDeleteAccount True ''a-cash'' ledger_unbalanced
     = (Some (toast_success ''Account deleted successfully!''), ledger1\<lparr>accounts := []\<rparr>)
   \<and> accounts (ledger1\<lparr>accounts := []\<rparr>) = []
   \<and> journal_lines (ledger1\<lparr>accounts := []\<rparr>) = []"
proof -
  have h: "handleDeleteAccount True ''a-cash'' ledger_unbalanced
     = (Some (toast_success ''Account deleted successfully!''), ledger1\<lparr>accounts := []\<rparr>)"
    by (simp add: handleDeleteAccount_def delete_account_Inr ledger_unbalanced_def ledger1_def
      ledger0_def cash_account_def debit_line_def)
  from delete_account_cascades[OF h] h show ?thesis
    by (simp add: ledger_unbalanced_def debit_line_def)
qed

section \<open>Dashboard and reports: the totals\<close>

lemma js_sum_from_append: "js_sum_from s (xs @ ys) = js_sum_from (js_sum_from s xs) ys"
  by (simp add: js_sum_from_def)

lemma report_line_totals:
  "totalRevenue (report_line m l v)
   = (if is_income_credit l then js_add (totalRevenue v) (line_credit l) else totalRevenue v)"
  "totalExpenses (report_line m l v)
   = (if is_expense_debit l then js_add (totalExpenses v) (line_debit l) else totalExpenses v)"
  by (auto simp: report_line_def is_income_credit_def is_expense_debit_def Let_def split: option.splits)

lemma dashboard_line_totals:
  "totalRevenue (dashboard_line m l v)
   = (if is_income_credit l then js_add (totalRevenue v) (line_credit l) else totalRevenue v)"
  "totalExpenses (dashboard_line m l v)
   = (if is_expense_debit l then js_add (totalExpenses v) (line_debit l) else totalExpenses v)"
  by (auto simp: dashboard_line_def is_income_credit_def is_expense_debit_def Let_def split: option.splits)

lemma fold_report_line:
  "totalRevenue (fold (report_line m) ls v)
     = js_sum_from (totalRevenue v) (map line_credit (filter is_income_credit ls))
   \<and> totalExpenses (fold (report_line m) ls v)
     = js_sum_from (totalExpenses v) (map line_debit (filter is_expense_debit ls))"
  by (induction ls arbitrary: v) (simp_all add: report_line_totals js_sum_from_def)

lemma fold_dashboard_line:
  "totalRevenue (fold (dashboard_line m) ls v)
     = js_sum_from (totalRevenue v) (map line_credit (filter is_income_credit ls))
   \<and> totalExpenses (fold (dashboard_line m) ls v)
     = js_sum_from (totalExpenses v) (map line_debit (filter is_expense_debit ls))"
  by (induction ls arbitrary: v) (simp_all add: dashboard_line_totals js_sum_from_def)

lemma report_entry_totals:
  "totalRevenue (report_entry mo e v)
     = js_sum_from (totalRevenue v) (map line_credit (filter is_income_credit (entry_lines e)))
   \<and> totalExpenses (report_entry mo e v)
     = js_sum_from (totalExpenses v) (map line_debit (filter is_expense_debit (entry_lines e)))"
  by (simp add: report_entry_def entry_lines_def fold_report_line js_sum_from_def
      split: option.splits)

lemma dashboard_entry_totals:
  "totalRevenue (dashboard_entry mo e v)
     = js_sum_from (totalRevenue v) (map line_credit (filter is_income_credit (entry_lines e)))
   \<and> totalExpenses (dashboard_entry mo e v)
     = js_sum_from (totalExpenses v) (map line_debit (filter is_expense_debit (entry_lines e)))"
  by (simp add: dashboard_entry_def entry_lines_def fold_dashboard_line js_sum_from_def Let_def
      split: option.splits)

lemma fold_report_entry:
  "totalRevenue (fold (report_entry mo) es v)
     = js_sum_from (totalRevenue v) (map line_credit (filter is_income_credit (all_lines es)))
   \<and> totalExpenses (fold (report_entry mo) es v)
     = js_sum_from (totalExpenses v) (map line_debit (filter is_expense_debit (all_lines es)))"
proof (induction es arbitrary: v)
  case Nil
  then show ?case by (simp add: all_lines_def js_sum_from_def)
next
  case (Cons e es)
  have "all_lines (e # es) = entry_lines e @ all_lines es" by (simp add: all_lines_def)
  then show ?case
    by (simp add: Cons.IH report_entry_totals js_sum_from_append)
qed

lemma fold_dashboard_entry:
  "totalRevenue (fold (dashboard_entry mo) es v)
     = js_sum_from (totalRevenue v) (map line_credit (filter is_income_credit (all_lines es)))
   \<and> totalExpenses (fold (dashboard_entry mo) es v)
     = js_sum_from (totalExpenses v) (map line_debit (filter is_expense_debit (all_lines es)))"
proof (induction es arbitrary: v)
  case Nil
  then show ?case by (simp add: all_lines_def js_sum_from_def)
next
  case (Cons e es)
  have "all_lines (e # es) = entry_lines e @ all_lines es" by (simp add: all_lines_def)
  then show ?case
    by (simp add: Cons.IH dashboard_entry_totals js_sum_from_append)
qed

lemma report_scan_totals:
  "totalRevenue (report_scan mo es) = revenue_sum (all_lines es)"
  "totalExpenses (report_scan mo es) = expense_sum (all_lines es)"
  by (simp_all add: report_scan_def fold_report_entry report_init_def revenue_sum_def
      expense_sum_def js_sum_def)

lemma dashboard_scan_totals:
  "totalRevenue (dashboard_scan mo es) = revenue_sum (all_lines es)"
  "totalExpenses (dashboard_scan mo es) = expense_sum (all_lines es)"
  by (simp_all add: dashboard_scan_def fold_dashboard_entry dashboard_init_def revenue_sum_def
      expense_sum_def js_sum_def)

text \<open>
  C4 (amended): in both aggregations, \<open>totalRevenue\<close> is the sum of the credit amounts
  of the lines against income accounts whose credit is positive, and \<open>totalExpenses\<close>
  the sum of the debit amounts of the lines against expense accounts whose debit is
  positive; no other line and no other amount enters a total. The sums are those of
  the page: the amounts are added in the order of the lines, in the arithmetic of
  JavaScript numbers.
\<close>

theorem aggregation_totals:
  "dd_totalRevenue (loadDashboardData mo (Inr es)) = revenue_sum (all_lines es)
   \<and> dd_totalExpenses (loadDashboardData mo (Inr es)) = expense_sum (all_lines es)
   \<and> rd_totalRevenue (loadReportData mo (Inr es)) = revenue_sum (all_lines es)
   \<and> rd_totalExpenses (loadReportData mo (Inr es)) = expense_sum (all_lines es)"
  by (simp add: loadDashboardData_def loadReportData_def Let_def report_scan_totals
      dashboard_scan_totals)

lemma sale_and_refund_lines:
  "all_lines sale_and_refund = [sample_line ''l2'' sales_account 200 0, sample_line ''l1'' sales_account 0 1000]"
  by (simp add: all_lines_def sale_and_refund_def entry_lines_def sample_entry_def)

lemma sale_and_rent_lines:
  "all_lines sale_and_rent
   = [sample_line ''l2'' rent_account 400 0, sample_line ''l1'' sales_account 0 1000]"
  by (simp add: all_lines_def sale_and_rent_def entry_lines_def sample_entry_def)

theorem aggregation_totals_witness:
  "dd_totalRevenue (loadDashboardData sample_month_of (Inr sale_and_rent)) = Fin 1000
   \<and> dd_totalExpenses (loadDashboardData sample_month_of (Inr sale_and_rent)) = Fin 400
   \<and> rd_totalRevenue (loadReportData sample_month_of (Inr sale_and_rent)) = Fin 1000
   \<and> rd_totalExpenses (loadReportData sample_month_of (Inr sale_and_rent)) = Fin 400"
proof -
  have "revenue_sum (all_lines sale_and_rent) = Fin 1000"
    and "expense_sum (all_lines sale_and_rent) = Fin 400"
    by (simp_all add: sale_and_rent_lines revenue_sum_def expense_sum_def js_sum_def
        js_sum_from_def is_income_credit_def is_expense_debit_def sample_line_def
        sales_account_def rent_account_def sample_account_def fl_whole)
  then show ?thesis
    using aggregation_totals[of sample_month_of sale_and_rent] by simp
qed

text \<open>
  C4 (as stated: a debit against an income account decreases the total of income).
  After a sale of 1000, a refund of 200 debited to the income account leaves
  \<open>totalRevenue\<close> at 1000; the sign convention gives 800.
\<close>

theorem refund_ignored:
  "dd_totalRevenue (loadDashboardData sample_month_of (Inr sale_and_refund)) = Fin 1000
   \<and> rd_totalRevenue (loadReportData sample_month_of (Inr sale_and_refund)) = Fin 1000
   \<and> spec_total_by_type Income sale_and_refund = 800"
  by (simp add: loadDashboardData_def loadReportData_def Let_def report_scan_totals
      dashboard_scan_totals sale_and_refund_lines revenue_sum_def js_sum_def js_sum_from_def
      is_income_credit_def sample_line_def sales_account_def sample_account_def
      spec_total_by_type_def spec_signed_delta_def fl_whole)

lemma net_profit_600: "js_sub (Fin 1000) (Fin 400) = Fin 600"
  by (simp add: js_sub_def fl_whole)

lemma profit_margin_60: "js_mul (js_div (Fin 600) (Fin 1000)) (Fin 100) = Fin 60"
proof -
  have "js_div (Fin 600) (Fin 1000) = fl (3 / 5)" by simp
  then show ?thesis by (simp only: fl_3_5 js_mul.simps fl_60)
qed

text \<open>
  C5: one line with credit 1000 against an income account and one line with debit 400
  against an expense account, in one entry or in two and in either order, give total
  income 1000, total expenses 400, net profit 600 and profit margin 60. The numbers
  are those of the page: the quotient 600 / 1000 is rounded to the double nearest to
  0.6, and its product with 100 is rounded to 60.
\<close>

theorem round_trip:
  assumes "acc_type inc = Income" and "acc_type ex = Expense"
    and "line_accounts l1 = Some inc" and "line_credit l1 = Fin 1000"
    and "line_accounts l2 = Some ex" and "line_debit l2 = Fin 400"
    and "all_lines es = [l1, l2] \<or> all_lines es = [l2, l1]"
  shows "rd_totalRevenue (loadReportData mo (Inr es)) = Fin 1000
     \<and> rd_totalExpenses (loadReportData mo (Inr es)) = Fin 400
     \<and> rd_netProfit (loadReportData mo (Inr es)) = Fin 600
     \<and> rd_profitMargin (loadReportData mo (Inr es)) = Fin 60
     \<and> dd_totalRevenue (loadDashboardData mo (Inr es)) = Fin 1000
     \<and> dd_totalExpenses (loadDashboardData mo (Inr es)) = Fin 400
     \<and> dd_netProfit (loadDashboardData mo (Inr es)) = Fin 600"
proof -
  have i: "is_income_credit l1" "\<not> is_income_credit l2" "is_expense_debit l2" "\<not> is_expense_debit l1"
    using assms by (simp_all add: is_income_credit_def is_expense_debit_def)
  have r: "revenue_sum (all_lines es) = Fin 1000" and x: "expense_sum (all_lines es) = Fin 400"
    using assms(7) i assms(4,6)
    by (auto simp: revenue_sum_def expense_sum_def js_sum_def js_sum_from_def fl_whole)
  have v: "totalRevenue (report_scan mo es) = Fin 1000" "totalExpenses (report_scan mo es) = Fin 400"
    "totalRevenue (dashboard_scan mo es) = Fin 1000" "totalExpenses (dashboard_scan mo es) = Fin 400"
    by (simp_all only: report_scan_totals dashboard_scan_totals r x)
  have g: "js_gt0 (Fin 1000)" by simp
  show ?thesis
    by (simp only: loadDashboardData_def loadReportData_def Let_def v net_profit_600
        profit_margin_60 g sum.case if_True ReportData.simps DashboardData.simps simp_thms)
qed

theorem round_trip_witness:
  "rd_totalRevenue (loadReportData sample_month_of (Inr sale_and_rent)) = Fin 1000
   \<and> rd_totalExpenses (loadReportData sample_month_of (Inr sale_and_rent)) = Fin 400
   \<and> rd_netProfit (loadReportData sample_month_of (Inr sale_and_rent)) = Fin 600
   \<and> rd_profitMargin (loadReportData sample_month_of (Inr sale_and_rent)) = Fin 60
   \<and> dd_totalRevenue (loadDashboardData sample_month_of (Inr sale_and_rent)) = Fin 1000
   \<and> dd_totalExpenses (loadDashboardData sample_month_of (Inr sale_and_rent)) = Fin 400
   \<and> dd_netProfit (loadDashboardData sample_month_of (Inr sale_and_rent)) = Fin 600"
  by (rule round_trip[of sales_account rent_account "sample_line ''l1'' sales_account 0 1000"
          "sample_line ''l2'' rent_account 400 0"])
     (simp_all add: sale_and_rent_lines sample_line_def sales_account_def rent_account_def
        sample_account_def)

section \<open>Seeding the default chart\<close>

lemma accounts_add_rows_Some: "accounts_add_rows rs rows = Some r \<Longrightarrow> r = rows @ rs"
  by (induction rs arbitrary: rows) (fastforce split: if_splits)+

lemma add_rows_taken:
  assumes "\<exists>p \<in> set ps. (Some org, fst (snd p)) \<in> keys rows"
  shows "accounts_add_rows (rows_of org ps) rows = None"
  using assms
proof (induction ps arbitrary: rows)
  case Nil
  then show ?case by simp
next
  case (Cons p ps)
  obtain k a where p: "p = (k, a)" by (cases p)
  show ?case
  proof (cases "accounts_unique_clash (default_row org k a) rows")
    case True
    then show ?thesis by (simp add: rows_of_def p)
  next
    case False
    then have "(Some org, fst a) \<notin> keys rows"
      by (auto simp: accounts_unique_clash_def default_row_def keys_def)
    with Cons.prems have "\<exists>q \<in> set ps. (Some org, fst (snd q)) \<in> keys (rows @ [default_row org k a])"
      by (auto simp: keys_def p)
    from Cons.IH[OF this] False show ?thesis by (simp add: rows_of_def p)
  qed
qed

lemma add_rows_free:
  assumes "\<forall>p \<in> set ps. (Some org, fst (snd p)) \<notin> keys rows"
    and "distinct (map (\<lambda>p. fst (snd p)) ps)"
    and "distinct (map fst ps)"
    and "\<forall>p \<in> set ps. fst p \<notin> set (map acc_id rows)"
  shows "accounts_add_rows (rows_of org ps) rows = Some (rows @ rows_of org ps)"
  using assms
proof (induction ps arbitrary: rows)
  case Nil
  then show ?case by (simp add: rows_of_def)
next
  case (Cons p ps)
  obtain k a where p: "p = (k, a)" by (cases p)
  let ?r = "default_row org k a"
  have noclash: "\<not> accounts_unique_clash ?r rows"
    using Cons.prems(1,4) by (auto simp: accounts_unique_clash_def default_row_def keys_def p)
  have kr: "keys (rows @ [?r]) = insert (Some org, fst a) (keys rows)"
    by (simp add: keys_def default_row_def)
  have ir: "set (map acc_id (rows @ [?r])) = insert k (set (map acc_id rows))"
    by (simp add: default_row_def)
  have 1: "\<forall>q \<in> set ps. (Some org, fst (snd q)) \<notin> keys (rows @ [?r])"
  proof
    fix q assume q: "q \<in> set ps"
    then have "fst (snd q) \<in> (\<lambda>p. fst (snd p)) ` set ps" by (rule imageI)
    moreover have "fst a \<notin> (\<lambda>p. fst (snd p)) ` set ps" using Cons.prems(2) by (simp add: p)
    ultimately have "fst (snd q) \<noteq> fst a" by metis
    moreover have "(Some org, fst (snd q)) \<notin> keys rows" using Cons.prems(1) q by simp
    ultimately show "(Some org, fst (snd q)) \<notin> keys (rows @ [?r])" unfolding kr by simp
  qed
  have 2: "distinct (map (\<lambda>p. fst (snd p)) ps)" using Cons.prems(2) by simp
  have 3: "distinct (map fst ps)" using Cons.prems(3) by simp
  have 4: "\<forall>q \<in> set ps. fst q \<notin> set (map acc_id (rows @ [?r]))"
  proof
    fix q assume q: "q \<in> set ps"
    then have "fst q \<in> fst ` set ps" by (rule imageI)
    moreover have "k \<notin> fst ` set ps" using Cons.prems(3) by (simp add: p)
    ultimately have "fst q \<noteq> k" by metis
    moreover have "fst q \<notin> set (map acc_id rows)" using Cons.prems(4) q by simp
    ultimately show "fst q \<notin> set (map acc_id (rows @ [?r]))" unfolding ir by simp
  qed
  from Cons.IH[OF 1 2 3 4] noclash show ?case by (simp add: rows_of_def p)
qed

lemma default_rows_of: "default_rows org g = rows_of org (seed_pairs g)"
  by (auto simp: default_rows_def rows_of_def seed_pairs_def enumerate_eq_zip zip_map1)

lemma seed_pairs_fst: "map fst (seed_pairs g) = map g [0..<length defaultAccounts]"
  by (simp add: seed_pairs_def)

lemma seed_pairs_snd: "map snd (seed_pairs g) = defaultAccounts"
  by (simp add: seed_pairs_def)

lemma default_codes_distinct: "distinct (map fst defaultAccounts)"
  by (simp add: defaultAccounts_def)

lemma code_taken_iff:
  "code_taken org d \<longleftrightarrow> (\<exists>a \<in> set defaultAccounts. (Some org, fst a) \<in> keys (accounts d))"
  by (simp add: code_taken_def keys_def list_ex_iff)

lemma seed_taken:
  assumes "code_taken org d"
  shows "createDefaultAccounts (Some org) g d = (Some (toast_error ''Failed to create default accounts''), d)"
proof -
  from assms obtain a where a: "a \<in> set defaultAccounts" "(Some org, fst a) \<in> keys (accounts d)"
    unfolding code_taken_iff by blast
  from a(1) have "a \<in> set (map snd (seed_pairs g))" by (simp only: seed_pairs_snd)
  then obtain p where "p \<in> set (seed_pairs g)" "snd p = a" by auto
  with a(2) have "\<exists>p \<in> set (seed_pairs g). (Some org, fst (snd p)) \<in> keys (accounts d)" by blast
  from add_rows_taken[OF this] show ?thesis
    by (simp add: createDefaultAccounts_def insert_accounts_def default_rows_of)
qed

lemma default_rows_fk:
  assumes "org \<in> set (organizations d)"
  shows "list_all (accounts_fk_ok (organizations d) rows) (rows_of org ps)"
  using assms
  by (auto simp: list_all_iff rows_of_def accounts_fk_ok_def references_def default_row_def)

lemma seed_free:
  assumes "\<not> code_taken org d" "fresh_ids g d" "org \<in> set (organizations d)"
  shows "createDefaultAccounts (Some org) g d =
     (Some (toast_success ''Default chart of accounts created!''),
      d\<lparr>accounts := accounts d @ default_rows org g\<rparr>)"
proof -
  have 1: "\<forall>p \<in> set (seed_pairs g). (Some org, fst (snd p)) \<notin> keys (accounts d)"
  proof
    fix p assume "p \<in> set (seed_pairs g)"
    then have "snd p \<in> set (map snd (seed_pairs g))" by simp
    then have "snd p \<in> set defaultAccounts" by (simp only: seed_pairs_snd)
    with assms(1) show "(Some org, fst (snd p)) \<notin> keys (accounts d)"
      unfolding code_taken_iff by blast
  qed
  have 2: "distinct (map (\<lambda>p. fst (snd p)) (seed_pairs g))"
  proof -
    have "map (\<lambda>p. fst (snd p)) (seed_pairs g) = map fst (map snd (seed_pairs g))"
      by (simp add: comp_def)
    then show ?thesis using default_codes_distinct by (simp only: seed_pairs_snd)
  qed
  have 3: "distinct (map fst (seed_pairs g))"
    using assms(2) unfolding seed_pairs_fst fresh_ids_def by blast
  have 4: "\<forall>p \<in> set (seed_pairs g). fst p \<notin> set (map acc_id (accounts d))"
  proof
    fix p assume "p \<in> set (seed_pairs g)"
    then have "fst p \<in> set (map fst (seed_pairs g))" by simp
    then have "fst p \<in> g ` set [0..<length defaultAccounts]" by (simp only: seed_pairs_fst set_map)
    then obtain i where "i \<in> set [0..<length defaultAccounts]" "fst p = g i" by blast
    moreover have "\<forall>i \<in> set [0..<length defaultAccounts]. g i \<notin> set (map acc_id (accounts d))"
      using assms(2) unfolding fresh_ids_def list_all_iff by blast
    ultimately show "fst p \<notin> set (map acc_id (accounts d))" by metis
  qed
  from add_rows_free[OF 1 2 3 4] show ?thesis
    using default_rows_fk[OF assms(3)]
    by (simp add: createDefaultAccounts_def insert_accounts_def default_rows_of)
qed

lemma seed_result:
  "snd (createDefaultAccounts (Some org) g d) = d
   \<or> (\<not> code_taken org d \<and> snd (createDefaultAccounts (Some org) g d) = d\<lparr>accounts := accounts d @ default_rows org g\<rparr>)"
proof (cases "code_taken org d")
  case True
  then show ?thesis by (simp add: seed_taken)
next
  case False
  show ?thesis
    by (auto simp: createDefaultAccounts_def insert_accounts_def False
        split: option.splits sum.splits dest: accounts_add_rows_Some)
qed

lemma code_taken_after:
  "code_taken org (d\<lparr>accounts := accounts d @ default_rows org g\<rparr>)"
proof -
  have "(''1000'', ''Cash and Cash Equivalents'', Asset) \<in> set defaultAccounts"
    by (simp add: defaultAccounts_def)
  moreover have "default_row org (g 0) (''1000'', ''Cash and Cash Equivalents'', Asset) \<in> set (default_rows org g)"
    by (simp add: default_rows_def defaultAccounts_def)
  then have "(Some org, ''1000'') \<in> keys (accounts d @ default_rows org g)"
    by (force simp: keys_def default_row_def)
  ultimately show ?thesis
    unfolding code_taken_iff by force
qed

lemma org_accounts_append:
  "org_accounts org (d\<lparr>accounts := accounts d @ rs\<rparr>)
   = org_accounts org d @ filter (\<lambda>r. acc_organization_id r = Some org) rs"
  by (simp add: org_accounts_def)

lemma default_rows_org: "filter (\<lambda>r. acc_organization_id r = Some org) (rows_of org ps) = rows_of org ps"
  by (auto simp: rows_of_def default_row_def filter_id_conv)

lemma rows_of_codes: "map acc_code (rows_of org ps) = map (\<lambda>p. fst (snd p)) ps"
  by (auto simp: rows_of_def default_row_def)

lemma default_rows_codes: "map acc_code (default_rows org g) = map fst defaultAccounts"
proof -
  have "map (\<lambda>p. fst (snd p)) (seed_pairs g) = map fst (map snd (seed_pairs g))"
    by (simp add: comp_def)
  then show ?thesis
    unfolding default_rows_of rows_of_codes by (simp only: seed_pairs_snd)
qed

lemma seed_codes_distinct:
  assumes "distinct (map acc_code (org_accounts org d))"
  shows "distinct (map acc_code (org_accounts org (snd (createDefaultAccounts (Some org) g d))))"
proof -
  consider "snd (createDefaultAccounts (Some org) g d) = d"
    | "\<not> code_taken org d"
      "snd (createDefaultAccounts (Some org) g d) = d\<lparr>accounts := accounts d @ default_rows org g\<rparr>"
    using seed_result by blast
  then show ?thesis
  proof cases
    case 1
    then show ?thesis using assms by simp
  next
    case 2
    have disj: "set (map acc_code (org_accounts org d)) \<inter> set (map fst defaultAccounts) = {}"
    proof (rule ccontr)
      assume "\<not> ?thesis"
      then obtain r a where r: "r \<in> set (org_accounts org d)" and a: "a \<in> set defaultAccounts"
        and eq: "acc_code r = fst a" by auto
      from r have "r \<in> set (accounts d)" "acc_organization_id r = Some org"
        by (simp_all add: org_accounts_def)
      then have "(Some org, fst a) \<in> keys (accounts d)"
        using eq by (force simp: keys_def)
      with a 2(1) show False unfolding code_taken_iff by blast
    qed
    show ?thesis
      unfolding 2(2) org_accounts_append
      using assms disj default_codes_distinct
      by (simp add: default_rows_of default_rows_org default_rows_codes[unfolded default_rows_of])
  qed
qed

lemma seed_twice:
  assumes "fresh_ids g d" and "org \<in> set (organizations d)"
  shows "snd (createDefaultAccounts (Some org) g' (snd (createDefaultAccounts (Some org) g d)))
         = snd (createDefaultAccounts (Some org) g d)"
proof (cases "code_taken org d")
  case True
  then show ?thesis by (simp add: seed_taken)
next
  case False
  from seed_free[OF False assms] show ?thesis
    by (simp add: seed_taken[OF code_taken_after])
qed

lemma default_types: "acc_type ` set (default_rows org g) = UNIV"
proof -
  have "t \<in> (\<lambda>a. snd (snd a)) ` set defaultAccounts" for t
    by (cases t) (simp_all add: defaultAccounts_def)
  moreover have "acc_type ` set (default_rows org g) = (\<lambda>a. snd (snd a)) ` set defaultAccounts"
  proof -
    have "map acc_type (rows_of org ps) = map (\<lambda>p. snd (snd (snd p))) ps" for ps
      by (auto simp: rows_of_def default_row_def)
    then have "map acc_type (default_rows org g) = map (\<lambda>a. snd (snd a)) (map snd (seed_pairs g))"
      unfolding default_rows_of by (simp add: comp_def)
    then have "map acc_type (default_rows org g) = map (\<lambda>a. snd (snd a)) defaultAccounts"
      by (simp only: seed_pairs_snd)
    then have "set (map acc_type (default_rows org g)) = set (map (\<lambda>a. snd (snd a)) defaultAccounts)"
      by simp
    then show ?thesis by (simp only: set_map)
  qed
  ultimately show ?thesis by auto
qed

lemma sample_uuid_inj: "inj sample_uuid"
proof (rule injI)
  fix i j assume "sample_uuid i = sample_uuid j"
  then have "length (sample_uuid i) = length (sample_uuid j)" by simp
  then show "i = j" by (simp add: sample_uuid_def)
qed

lemma sample_uuid_hd: "hd (sample_uuid i) = CHR ''u''"
  by (simp add: sample_uuid_def)

lemma fresh_sample_petty: "fresh_ids sample_uuid ledger_petty"
proof -
  have "sample_uuid i \<noteq> ''a-petty''" for i
    using sample_uuid_hd[of i] by auto
  then show ?thesis
    using sample_uuid_inj
    by (simp add: fresh_ids_def distinct_map list_all_iff ledger_petty_def petty_cash_def
        inj_on_def inj_def)
qed

lemma not_taken_petty: "\<not> code_taken ''org-1'' ledger_petty"
  by (simp add: code_taken_def defaultAccounts_def ledger_petty_def petty_cash_def)

lemma taken_ledger0: "code_taken ''org-1'' ledger0"
  by (simp add: code_taken_def defaultAccounts_def ledger0_def cash_account_def)

text \<open>
  C6 (as stated: seeding inserts only when the organization has no accounts, and is a
  silent no-op otherwise). The page offers the button whenever its own list is empty,
  as it is after a failed load. An organization whose only account has the code 9999
  is seeded all the same and then has 17 accounts; an organization that already uses
  the code 1000 gets the error toast.
\<close>

theorem seeded_despite_accounts:
  "seed_button_shown (page_accounts (Inl ()) [])
   \<and> org_accounts ''org-1'' ledger_petty = [petty_cash]
   \<and> fst (createDefaultAccounts (Some ''org-1'') sample_uuid ledger_petty)
       = Some (toast_success ''Default chart of accounts created!'')
   \<and> length (org_accounts ''org-1''
        (snd (createDefaultAccounts (Some ''org-1'') sample_uuid ledger_petty))) = 17
   \<and> org_accounts ''org-1'' ledger0 = [cash_account]
   \<and> createDefaultAccounts (Some ''org-1'') sample_uuid ledger0
       = (Some (toast_error ''Failed to create default accounts''), ledger0)"
proof -
  have o: "''org-1'' \<in> set (organizations ledger_petty)" by (simp add: ledger_petty_def)
  have 0: "seed_button_shown (page_accounts (Inl ()) [])"
    by (simp add: seed_button_shown_def page_accounts_def)
  have 1: "org_accounts ''org-1'' ledger_petty = [petty_cash]"
    by (simp add: org_accounts_def ledger_petty_def petty_cash_def)
  have 2: "org_accounts ''org-1'' ledger0 = [cash_account]"
    by (simp add: org_accounts_def ledger0_def cash_account_def)
  have 3: "length (filter (\<lambda>r. acc_organization_id r = Some ''org-1'')
                    (default_rows ''org-1'' sample_uuid)) = 16"
    unfolding default_rows_of default_rows_org
    by (simp add: rows_of_def seed_pairs_def defaultAccounts_def)
  show ?thesis
    using seed_free[OF not_taken_petty fresh_sample_petty o] seed_taken[OF taken_ledger0, of sample_uuid]
    by (simp add: 0 1 2 3 org_accounts_append)
qed

text \<open>
  C6 (amended): seeding inserts the fixed set of sixteen accounts (every account type
  occurs) in one statement whenever no default code is already used in the
  organization, whatever other accounts exist; when a default code is used the store
  refuses the insert, the handler reports \<open>Failed to create default accounts\<close> and the
  table is unchanged. Seeding keeps the codes of an organization distinct, and seeding
  twice in succession leaves the store as seeding once does.
\<close>

theorem default_chart_insert:
  assumes "fresh_ids g d" and "org \<in> set (organizations d)"
  shows "createDefaultAccounts (Some org) g d =
           (if code_taken org d
            then (Some (toast_error ''Failed to create default accounts''), d)
            else (Some (toast_success ''Default chart of accounts created!''),
                  d\<lparr>accounts := accounts d @ default_rows org g\<rparr>))
    \<and> length (default_rows org g) = 16
    \<and> acc_type ` set (default_rows org g) = UNIV
    \<and> (distinct (map acc_code (org_accounts org d)) \<longrightarrow>
         distinct (map acc_code (org_accounts org (snd (createDefaultAccounts (Some org) g d)))))
    \<and> snd (createDefaultAccounts (Some org) g' (snd (createDefaultAccounts (Some org) g d)))
         = snd (createDefaultAccounts (Some org) g d)"
proof -
  have 1: "createDefaultAccounts (Some org) g d =
           (if code_taken org d
            then (Some (toast_error ''Failed to create default accounts''), d)
            else (Some (toast_success ''Default chart of accounts created!''),
                  d\<lparr>accounts := accounts d @ default_rows org g\<rparr>))"
  proof (cases "code_taken org d")
    case True
    then show ?thesis by (simp add: seed_taken)
  next
    case False
    then show ?thesis by (simp add: seed_free[OF False assms])
  qed
  have 2: "length (default_rows org g) = 16"
    by (simp add: default_rows_def defaultAccounts_def)
  show ?thesis
    using 1 2 default_types[of org g] seed_codes_distinct[of org d g] seed_twice[OF assms, of g']
    by blast
qed

theorem default_chart_insert_witness:
  "fresh_ids sample_uuid ledger_petty \<and> ''org-1'' \<in> set (organizations ledger_petty)
   \<and> createDefaultAccounts (Some ''org-1'') sample_uuid ledger_petty
       = (Some (toast_success ''Default chart of accounts created!''),
          ledger_petty\<lparr>accounts := accounts ledger_petty @ default_rows ''org-1'' sample_uuid\<rparr>)
   \<and> distinct (map acc_code (org_accounts ''org-1'' ledger_petty))
   \<and> distinct (map acc_code (org_accounts ''org-1''
        (snd (createDefaultAccounts (Some ''org-1'') sample_uuid ledger_petty))))
   \<and> snd (createDefaultAccounts (Some ''org-1'') sample_uuid
        (snd (createDefaultAccounts (Some ''org-1'') sample_uuid ledger_petty)))
       = snd (createDefaultAccounts (Some ''org-1'') sample_uuid ledger_petty)"
proof -
  have o: "''org-1'' \<in> set (organizations ledger_petty)" by (simp add: ledger_petty_def)
  have dd: "distinct (map acc_code (org_accounts ''org-1'' ledger_petty))"
    by (simp add: org_accounts_def ledger_petty_def petty_cash_def)
  note s = default_chart_insert[OF fresh_sample_petty o, of sample_uuid]
  from s not_taken_petty
  have a: "createDefaultAccounts (Some ''org-1'') sample_uuid ledger_petty
       = (Some (toast_success ''Default chart of accounts created!''),
          ledger_petty\<lparr>accounts := accounts ledger_petty @ default_rows ''org-1'' sample_uuid\<rparr>)"
    by simp
  from s dd
  have b: "distinct (map acc_code (org_accounts ''org-1''
        (snd (createDefaultAccounts (Some ''org-1'') sample_uuid ledger_petty))))"
    by blast
  from s
  have c: "snd (createDefaultAccounts (Some ''org-1'') sample_uuid
        (snd (createDefaultAccounts (Some ''org-1'') sample_uuid ledger_petty)))
       = snd (createDefaultAccounts (Some ''org-1'') sample_uuid ledger_petty)"
    by blast
  show ?thesis
    using a b c fresh_sample_petty o dd by blast
qed

section \<open>The expense category breakdown\<close>

lemma dashboard_line_categories:
  "expensesByCategory (dashboard_line m l v) = expenses_line l (expensesByCategory v)"
  by (auto simp: dashboard_line_def expenses_line_def is_expense_debit_def account_name_def Let_def
      split: option.splits)

lemma fold_dashboard_line_categories:
  "expensesByCategory (fold (dashboard_line m) ls v) = fold expenses_line ls (expensesByCategory v)"
  by (induction ls arbitrary: v) (simp_all add: dashboard_line_categories)

lemma dashboard_entry_categories:
  "expensesByCategory (dashboard_entry mo e v) = fold expenses_line (entry_lines e) (expensesByCategory v)"
  by (simp add: dashboard_entry_def entry_lines_def fold_dashboard_line_categories Let_def
      split: option.splits)

lemma fold_dashboard_entry_categories:
  "expensesByCategory (fold (dashboard_entry mo) es v)
   = fold expenses_line (all_lines es) (expensesByCategory v)"
proof (induction es arbitrary: v)
  case Nil
  then show ?case by (simp add: all_lines_def)
next
  case (Cons e es)
  have "all_lines (e # es) = entry_lines e @ all_lines es" by (simp add: all_lines_def)
  then show ?case by (simp add: Cons.IH dashboard_entry_categories)
qed

lemma dashboard_scan_categories:
  "expensesByCategory (dashboard_scan mo es) = fold expenses_line (all_lines es) []"
  by (simp add: dashboard_scan_def fold_dashboard_entry_categories dashboard_init_def)

lemma fold_expenses_entry:
  "fold expenses_entry es obj = fold expenses_line (all_lines es) obj"
proof (induction es arbitrary: obj)
  case Nil
  then show ?case by (simp add: all_lines_def)
next
  case (Cons e es)
  have "all_lines (e # es) = entry_lines e @ all_lines es" by (simp add: all_lines_def)
  moreover have "expenses_entry e obj = fold expenses_line (entry_lines e) obj"
    by (simp add: expenses_entry_def entry_lines_def split: option.splits)
  ultimately show ?case by (simp add: Cons.IH)
qed

text \<open>
  The Dashboard and the Expenses page build the same breakdown from the same entries:
  the first five of \<open>Object.entries\<close> of the dictionary that the lines fill, in the
  order of that enumeration. No step sorts it.
\<close>

lemma breakdown_of_lines:
  "dd_expenseBreakdown (loadDashboardData mo (Inr es))
     = expense_breakdown (fold expenses_line (all_lines es) [])"
  "loadExpenses_categories es = expense_breakdown (fold expenses_line (all_lines es) [])"
  by (simp_all add: loadDashboardData_def Let_def dashboard_scan_categories
      loadExpenses_categories_def fold_expenses_entry)

lemma six_lines:
  "all_lines six_expenses =
    [sample_line ''l6'' (sample_account ''6100'' ''Rent Expense'' Expense) 100 0,
     sample_line ''l5'' (sample_account ''6300'' ''Marketing Expense'' Expense) 100 0,
     sample_line ''l4'' (sample_account ''6200'' ''Utilities Expense'' Expense) 1 0,
     sample_line ''l3'' (sample_account ''6000'' ''Operating Expenses'' Expense) 2 0,
     sample_line ''l2'' (sample_account ''6400'' ''Insurance Expense'' Expense) 3 0,
     sample_line ''l1'' (sample_account ''5000'' ''Cost of Goods Sold'' Expense) 1000 0]"
  by (simp add: all_lines_def six_expenses_def entry_lines_def sample_entry_def)

lemma six_categories:
  "fold expenses_line (all_lines six_expenses) [] =
     [(''Rent Expense'', JNum (Fin 100)), (''Marketing Expense'', JNum (Fin 100)),
      (''Utilities Expense'', JNum (Fin 1)), (''Operating Expenses'', JNum (Fin 2)),
      (''Insurance Expense'', JNum (Fin 3)), (''Cost of Goods Sold'', JNum (Fin 1000))]"
  by (simp add: six_lines expenses_line_def is_expense_debit_def account_name_def
      sample_line_def sample_account_def obj_add_def obj_get_def js_or0_def
      Object_prototype_keys_def fl_whole)

lemma not_index: "hd s = CHR ''R'' \<or> hd s = CHR ''M'' \<or> hd s = CHR ''U'' \<or> hd s = CHR ''O'' \<or> hd s = CHR ''I'' \<or> hd s = CHR ''C'' \<or> hd s = CHR ''c'' \<Longrightarrow> \<not> is_array_index s"
  by (cases s) (auto simp: is_array_index_def is_digit_def)

lemma six_breakdown:
  "map (\<lambda>b. (bi_name b, bi_value b)) (expense_breakdown (fold expenses_line (all_lines six_expenses) []))
   = [(''Rent Expense'', JNum (Fin 100)), (''Marketing Expense'', JNum (Fin 100)),
      (''Utilities Expense'', JNum (Fin 1)), (''Operating Expenses'', JNum (Fin 2)),
      (''Insurance Expense'', JNum (Fin 3))]"
  by (simp add: six_categories expense_breakdown_def Object_entries_def not_index enumerate_eq_zip)

lemma six_spec_breakdown:
  "spec_breakdown (all_lines six_expenses)
   = [(''Cost of Goods Sold'', 1000), (''Marketing Expense'', 100), (''Rent Expense'', 100),
      (''Insurance Expense'', 3), (''Operating Expenses'', 2)]"
  by (simp add: six_lines spec_breakdown_def spec_category_names_def spec_category_total_def
      account_name_def sample_line_def sample_account_def)

text \<open>
  C7: six categories loaded newest first, with totals 100, 100, 1, 2, 3 and 1000. The
  breakdown of both pages lists the first five in load order: it is not sorted by
  total, rent comes before marketing although the totals are equal, and the largest
  category is left out. Sorted by total, with ties by name, and cut to the top 5, the
  breakdown starts with the category of total 1000 and lists marketing before rent.
\<close>

theorem breakdown_in_load_order:
  "map (\<lambda>b. (bi_name b, bi_value b))
     (dd_expenseBreakdown (loadDashboardData sample_month_of (Inr six_expenses)))
   = [(''Rent Expense'', JNum (Fin 100)), (''Marketing Expense'', JNum (Fin 100)),
      (''Utilities Expense'', JNum (Fin 1)), (''Operating Expenses'', JNum (Fin 2)),
      (''Insurance Expense'', JNum (Fin 3))]
   \<and> map (\<lambda>b. (bi_name b, bi_value b)) (loadExpenses_categories six_expenses)
   = [(''Rent Expense'', JNum (Fin 100)), (''Marketing Expense'', JNum (Fin 100)),
      (''Utilities Expense'', JNum (Fin 1)), (''Operating Expenses'', JNum (Fin 2)),
      (''Insurance Expense'', JNum (Fin 3))]
   \<and> spec_breakdown (all_lines six_expenses)
   = [(''Cost of Goods Sold'', 1000), (''Marketing Expense'', 100), (''Rent Expense'', 100),
      (''Insurance Expense'', 3), (''Operating Expenses'', 2)]"
  by (simp only: breakdown_of_lines six_breakdown six_spec_breakdown simp_thms)

text \<open>
  A category whose name is a property that every object inherits does not get its
  total: the first \<open>o[k] || 0\<close> reads the inherited function, so the category
  \<open>constructor\<close> holds a string, and the assignment to \<open>__proto__\<close> is ignored, so
  that category is missing.
\<close>

lemma inherited_names_breakdown:
  "map (\<lambda>b. (bi_name b, bi_value b)) (loadExpenses_categories inherited_names)
   = [(''constructor'', JStr)]"
proof -
  have "fold expenses_line (all_lines inherited_names) [] = [(''constructor'', JStr)]"
    by (simp add: inherited_names_def all_lines_def entry_lines_def sample_entry_def
        expenses_line_def is_expense_debit_def account_name_def sample_line_def
        sample_account_def obj_add_def obj_get_def js_or0_def Object_prototype_keys_def)
  then show ?thesis
    by (simp add: breakdown_of_lines expense_breakdown_def Object_entries_def not_index
        enumerate_eq_zip)
qed

section \<open>Banking: the balance of a bank account\<close>

lemma cash_is_bank: "is_bank_name (acc_name cash_account)"
  by code_simp

lemma balances_zero: "b \<in> set (fst (loadBankingData a e)) \<Longrightarrow> ba_balance b = Fin 0"
  by (auto simp: loadBankingData_def bankAccountsData_def split: sum.splits)

text \<open>
  C8: the cash account has one line, a debit of 100, so its running balance is 100;
  the page shows the balance 0 that \<open>bankAccountsData\<close> writes into every account.
\<close>

theorem cash_balance_zero:
  "map ba_name (fst (loadBankingData (Inr [cash_account]) (Inr cash_deposit)))
     = [''Cash and Cash Equivalents'']
   \<and> map ba_balance (fst (loadBankingData (Inr [cash_account]) (Inr cash_deposit))) = [Fin 0]
   \<and> spec_running_balance cash_account cash_deposit = 100"
  using cash_is_bank
  by (simp add: loadBankingData_def bankAccountsData_def spec_running_balance_def
      spec_signed_delta_def all_lines_def entry_lines_def cash_deposit_def sample_entry_def
      sample_line_def cash_account_def sales_account_def sample_account_def)

section \<open>The forest of accounts\<close>

lemma fold_first_pass_dom:
  "dom (fold (\<lambda>account m. m(acc_id account \<mapsto> \<lparr>account_row = account, children = []\<rparr>)) ds m0)
   = dom m0 \<union> acc_id ` set ds"
  by (induction ds arbitrary: m0) auto

lemma first_pass_dom: "dom (first_pass data) = acc_id ` set data"
  by (simp add: first_pass_def fold_first_pass_dom)

lemma link_account_dom: "dom (fst (link_account a s)) = dom (fst s)"
  by (auto simp: link_account_def split: option.splits if_splits)

lemma link_account_root:
  "snd (link_account a s) = (if is_root (dom (fst s)) a then snd s @ [acc_id a] else snd s)"
  by (auto simp: link_account_def is_root_def split: option.splits)

lemma fold_link_account_dom: "dom (fst (fold link_account ds s)) = dom (fst s)"
  by (induction ds arbitrary: s) (simp_all add: link_account_dom)

lemma fold_link_account_roots:
  "snd (fold link_account ds s) = snd s @ map acc_id (filter (is_root (dom (fst s))) ds)"
  by (induction ds arbitrary: s) (simp_all add: link_account_dom link_account_root)

lemma loadAccounts_roots:
  "snd (loadAccounts data) = map acc_id (filter (is_root (acc_id ` set data)) data)"
  by (simp add: loadAccounts_def fold_link_account_roots first_pass_dom)

lemma link_account_children:
  assumes "fst s p = Some obj"
  shows "\<exists>obj'. fst (link_account a s) p = Some obj'
           \<and> children obj' = children obj
                @ (if acc_parent_account_id a = Some p \<and> p \<noteq> [] then [acc_id a] else [])"
  using assms by (auto simp: link_account_def split: option.splits)

lemma fold_link_account_children:
  assumes "fst s p = Some obj"
  shows "\<exists>obj'. fst (fold link_account ds s) p = Some obj'
           \<and> children obj' = children obj
                @ map acc_id (filter (\<lambda>a. acc_parent_account_id a = Some p \<and> p \<noteq> []) ds)"
  using assms
proof (induction ds arbitrary: s obj)
  case Nil
  then show ?case by simp
next
  case (Cons a ds)
  from link_account_children[OF Cons.prems, of a] obtain obj1 where
    1: "fst (link_account a s) p = Some obj1"
    and 2: "children obj1 = children obj
                @ (if acc_parent_account_id a = Some p \<and> p \<noteq> [] then [acc_id a] else [])"
    by blast
  from Cons.IH[OF 1] 2 show ?case by auto
qed

lemma loadAccounts_child:
  assumes "a \<in> set data" and "acc_parent_account_id a = Some p" and "p \<noteq> []"
    and "p \<in> acc_id ` set data"
  shows "\<exists>obj. fst (loadAccounts data) p = Some obj \<and> acc_id a \<in> set (children obj)"
proof -
  from assms(4) obtain obj0 where "first_pass data p = Some obj0"
    using first_pass_dom[of data] by blast
  then have "fst (first_pass data, []) p = Some obj0" by simp
  from fold_link_account_children[OF this, of data] assms(1,2,3)
  show ?thesis by (auto simp: loadAccounts_def)
qed

lemma finite_parent_rel: "finite (parent_rel data)"
proof -
  have "parent_rel data \<subseteq> (acc_id ` set data) \<times> (acc_id ` set data)"
    by (auto simp: parent_rel_def)
  then show ?thesis by (rule finite_subset) simp
qed

text \<open>
  In \<open>src/pages/ChartOfAccounts.tsx\<close> an account whose parent is not loaded is a root,
  and when the parent relation of the loaded accounts has no cycle, every loaded
  account is in the forest.
\<close>

lemma dangling_parent_is_root:
  assumes "a \<in> set data" and "acc_parent_account_id a = Some p" and "p \<notin> acc_id ` set data"
  shows "acc_id a \<in> set (snd (loadAccounts data))"
  using assms by (auto simp: loadAccounts_roots is_root_def)

lemma no_account_lost:
  assumes "acyclic (parent_rel data)" and "a \<in> set data"
  shows "in_forest (loadAccounts data) (acc_id a)"
proof -
  have wf: "wf (parent_rel data)"
    using finite_parent_rel assms(1) by (rule finite_acyclic_wf)
  have "\<forall>a \<in> set data. acc_id a = k \<longrightarrow> in_forest (loadAccounts data) k" for k
  proof (induction k rule: wf_induct_rule[OF wf])
    case (1 k)
    show ?case
    proof (intro ballI impI)
      fix a assume a: "a \<in> set data" "acc_id a = k"
      show "in_forest (loadAccounts data) k"
      proof (cases "is_root (acc_id ` set data) a")
        case True
        with a have "k \<in> set (snd (loadAccounts data))"
          by (auto simp: loadAccounts_roots)
        then show ?thesis by (rule in_forest_root)
      next
        case False
        then obtain p where p: "acc_parent_account_id a = Some p" "p \<noteq> []" "p \<in> acc_id ` set data"
          by (auto simp: is_root_def split: option.splits)
        with a have "(p, k) \<in> parent_rel data" by (auto simp: parent_rel_def)
        moreover from p(3) obtain b where "b \<in> set data" "acc_id b = p" by auto
        ultimately have "in_forest (loadAccounts data) p" using 1 by blast
        moreover from loadAccounts_child[OF a(1) p] obtain obj where
          "fst (loadAccounts data) p = Some obj" "acc_id a \<in> set (children obj)" by blast
        ultimately show ?thesis using a(2) by (auto intro: in_forest_child)
      qed
    qed
  qed
  with assms(2) show ?thesis by blast
qed

lemma in_forest_roots: "in_forest f k \<Longrightarrow> snd f \<noteq> []"
  by (induction rule: in_forest.induct) auto

text \<open>
  C9: an account whose parent is not loaded. The second pass of \<open>part_005\<close> puts it
  nowhere: there is no root and the account is not in the forest. The second pass of
  \<open>src/pages/ChartOfAccounts.tsx\<close> makes it a root.
\<close>

theorem orphan_dropped:
  "acc_parent_account_id orphan_account = Some ''a-gone''
   \<and> ''a-gone'' \<notin> set (map acc_id [orphan_account])
   \<and> snd (loadAccounts_part_005 [orphan_account]) = []
   \<and> \<not> in_forest (loadAccounts_part_005 [orphan_account]) (acc_id orphan_account)
   \<and> snd (loadAccounts [orphan_account]) = [acc_id orphan_account]"
proof -
  have 1: "snd (loadAccounts_part_005 [orphan_account]) = []"
    by (simp add: loadAccounts_part_005_def link_account_part_005_def first_pass_def
        orphan_account_def)
  then have 2: "\<not> in_forest (loadAccounts_part_005 [orphan_account]) (acc_id orphan_account)"
    using in_forest_roots by blast
  have 3: "snd (loadAccounts [orphan_account]) = [acc_id orphan_account]"
    by (simp add: loadAccounts_roots is_root_def orphan_account_def)
  show ?thesis using 1 2 3 by (simp add: orphan_account_def)
qed

text \<open>
  An account on a cycle of the parent relation is under no root, in either component.
\<close>

lemma self_parent_lost:
  "snd (loadAccounts [self_parent]) = []
   \<and> \<not> in_forest (loadAccounts [self_parent]) (acc_id self_parent)"
proof -
  have 1: "snd (loadAccounts [self_parent]) = []"
    by (simp add: loadAccounts_roots is_root_def self_parent_def)
  then show ?thesis using in_forest_roots by blast
qed

lemma no_account_lost_example:
  "in_forest (loadAccounts [cash_account, orphan_account\<lparr>acc_parent_account_id := Some ''a-cash''\<rparr>]) ''a-child''"
proof -
  let ?d = "[cash_account, orphan_account\<lparr>acc_parent_account_id := Some ''a-cash''\<rparr>]"
  have "parent_rel ?d = {(''a-cash'', ''a-child'')}"
    by (auto simp: parent_rel_def cash_account_def orphan_account_def)
  moreover have "acyclic ({} :: (uuid \<times> uuid) set)" by (rule wf_acyclic) simp
  ultimately have "acyclic (parent_rel ?d)" by (simp add: acyclic_insert)
  from no_account_lost[OF this, of "orphan_account\<lparr>acc_parent_account_id := Some ''a-cash''\<rparr>"]
  show ?thesis by (simp add: orphan_account_def)
qed

section \<open>Banking: the transactions\<close>








end
